theory Spec2Isabelle
  imports Complex_Main "HOL-Library.AList" "HOL-Library.While_Combinator"
begin

section \<open>Data model of informatica\_lineage.py\<close>

text \<open>
  Python dictionaries are modelled as association lists in insertion order:
  \<open>map_of\<close> is the lookup, \<open>AList.update\<close> the assignment \<open>d[k] = v\<close> (an existing
  key keeps its position, a new key goes to the end), \<open>map fst\<close> the iteration over keys.
\<close>

type_synonym ('k, 'v) dict = "('k \<times> 'v) list"

text \<open>
  A Python \<open>str\<close> is a sequence of Unicode code points. It is modelled as a list of
  natural numbers, one per code point; \<open>str\<close> turns an ASCII literal into such a list.
\<close>

type_synonym pystr = "nat list"

definition cp :: "char \<Rightarrow> nat" where
  "cp c = of_char c"

definition str :: "string \<Rightarrow> pystr" where
  "str s = map cp s"


datatype TransformationType =
    SOURCE_DEFINITION | SOURCE_QUALIFIER | TARGET_DEFINITION | EXPRESSION | FILTER
  | AGGREGATOR | JOINER | LOOKUP | ROUTER | SORTER | SEQUENCE_GENERATOR | NORMALIZER
  | RANK | UNION | UPDATE_STRATEGY | STORED_PROCEDURE | CUSTOM_TRANSFORMATION | UNKNOWN

record FieldInfo =
  fi_name :: pystr
  fi_datatype :: pystr
  fi_port_type :: "pystr option"
  fi_expression :: "pystr option"

record ConnectorInfo =
  from_instance :: pystr
  from_instance_type :: pystr
  from_field :: pystr
  to_instance :: pystr
  to_instance_type :: pystr
  to_field :: pystr

record TransformationInfo =
  tr_name :: pystr
  tr_type :: TransformationType
  tr_fields :: "(pystr, FieldInfo) dict"
  sql_query :: "pystr option"
  stored_proc_name :: "pystr option"
  stored_proc_schema :: "pystr option"

record SourceDefinition =
  sd_name :: pystr
  sd_owner_name :: "pystr option"
  sd_fields :: "(pystr, FieldInfo) dict"

record TargetDefinition =
  td_name :: pystr
  td_owner_name :: "pystr option"
  td_fields :: "(pystr, FieldInfo) dict"

record InstanceInfo =
  in_name :: pystr
  transformation_name :: pystr
  transformation_type :: TransformationType
  reusable :: bool

record MappingInfo =
  mp_name :: pystr
  instances :: "(pystr, InstanceInfo) dict"
  connectors :: "ConnectorInfo list"
  mp_transformations :: "(pystr, TransformationInfo) dict"

record FolderInfo =
  fo_name :: pystr
  sources :: "(pystr, SourceDefinition) dict"
  targets :: "(pystr, TargetDefinition) dict"
  fo_transformations :: "(pystr, TransformationInfo) dict"

text \<open>
  \<open>confidence_score\<close> is a Python float that is only ever assigned the literals
  \<open>1.0\<close> and \<open>0.95\<close> and compared by \<open>min\<close>; it is modelled as a real number.
\<close>

record ColumnLineageEdge =
  source_dataset :: pystr
  source_column :: pystr
  target_dataset :: pystr
  target_column :: pystr
  cle_transformation_type :: TransformationType
  transformation_expression :: "pystr option"
  confidence_score :: real
  cle_step_order :: int

record TransformationStep =
  step_order :: int
  instance_name :: pystr
  ts_transformation_type :: TransformationType
  input_fields :: "(pystr \<times> pystr) list"
  output_fields :: "(pystr \<times> pystr) list"
  expression :: "pystr option"

section \<open>LineageBuilder.\_build\_instance\_graph\<close>

type_synonym instance_graph = "(pystr, (pystr, (pystr \<times> pystr) list) dict) dict"

text \<open>\<open>d.get(k, default)\<close>\<close>

definition dict_get :: "('k, 'v) dict \<Rightarrow> 'k \<Rightarrow> 'v \<Rightarrow> 'v" where
  "dict_get d k dflt = (case map_of d k of None \<Rightarrow> dflt | Some v \<Rightarrow> v)"

text \<open>\<open>if k not in d: d[k] = v\<close>\<close>

definition dict_init :: "'k \<Rightarrow> 'v \<Rightarrow> ('k, 'v) dict \<Rightarrow> ('k, 'v) dict" where
  "dict_init k v d = (if map_of d k = None then AList.update k v d else d)"

text \<open>
  One iteration of the loop over \<open>mapping.connectors\<close>: both levels of the nested
  dictionary are created on first use, then the pair is appended to the list.
\<close>

definition add_connector :: "instance_graph \<Rightarrow> ConnectorInfo \<Rightarrow> instance_graph" where
  "add_connector graph connector =
     (let to_inst = to_instance connector;
          to_fld = to_field connector;
          from_inst = from_instance connector;
          from_fld = from_field connector;
          graph1 = dict_init to_inst [] graph;
          inner = dict_init to_fld [] (dict_get graph1 to_inst []);
          lst = dict_get inner to_fld []
      in AList.update to_inst (AList.update to_fld (lst @ [(from_inst, from_fld)]) inner) graph1)"

definition build_instance_graph :: "ConnectorInfo list \<Rightarrow> instance_graph" where
  "build_instance_graph cs = foldl add_connector [] cs"

text \<open>
  The per-field upstream list read by the tracer:
  \<open>instance_graph.get(target_instance, {}).get(target_field, [])\<close>.
\<close>

definition edges_into :: "instance_graph \<Rightarrow> pystr \<Rightarrow> pystr \<Rightarrow> (pystr \<times> pystr) list" where
  "edges_into graph inst fld = dict_get (dict_get graph inst []) fld []"

definition conn :: "pystr \<Rightarrow> pystr \<Rightarrow> pystr \<Rightarrow> pystr \<Rightarrow> ConnectorInfo" where
  "conn fi ff ti tf =
     \<lparr>from_instance = fi, from_instance_type = (str ''Expression''), from_field = ff,
      to_instance = ti, to_instance_type = (str ''Expression''), to_field = tf\<rparr>"

section \<open>Properties of the instance graph\<close>

lemma edges_into_add_connector:
  "edges_into (add_connector g c) i f =
     edges_into g i f @
       (if to_instance c = i \<and> to_field c = f then [(from_instance c, from_field c)] else [])"
  by (auto simp: edges_into_def add_connector_def dict_get_def dict_init_def Let_def
        update_conv' split: option.splits)

lemma edges_into_foldl:
  "edges_into (foldl add_connector g cs) i f =
     edges_into g i f @
       map (\<lambda>c. (from_instance c, from_field c))
         (filter (\<lambda>c. to_instance c = i \<and> to_field c = f) cs)"
  by (induction cs arbitrary: g) (simp_all add: edges_into_add_connector)

lemma edges_into_build:
  "edges_into (build_instance_graph cs) i f =
     map (\<lambda>c. (from_instance c, from_field c))
       (filter (\<lambda>c. to_instance c = i \<and> to_field c = f) cs)"
  by (simp add: build_instance_graph_def edges_into_foldl) (simp add: edges_into_def dict_get_def)

text \<open>
  C6 (as stated): inserting the same connector twice gives the same per-field upstream
  list as inserting it once. The code appends without looking for an existing entry, so
  the list holds the pair twice.
\<close>

theorem C6_duplicate_edge_counterexample:
  "edges_into (build_instance_graph [conn (str ''SQ'') (str ''ID'') (str ''EXP'') (str ''ID''), conn (str ''SQ'') (str ''ID'') (str ''EXP'') (str ''ID'')]) (str ''EXP'') (str ''ID'')
     = [((str ''SQ''), (str ''ID'')), ((str ''SQ''), (str ''ID''))]
   \<and> edges_into (build_instance_graph [conn (str ''SQ'') (str ''ID'') (str ''EXP'') (str ''ID'')]) (str ''EXP'') (str ''ID'')
     = [((str ''SQ''), (str ''ID''))]
   \<and> edges_into (build_instance_graph [conn (str ''SQ'') (str ''ID'') (str ''EXP'') (str ''ID''), conn (str ''SQ'') (str ''ID'') (str ''EXP'') (str ''ID'')]) (str ''EXP'') (str ''ID'')
     \<noteq> edges_into (build_instance_graph [conn (str ''SQ'') (str ''ID'') (str ''EXP'') (str ''ID'')]) (str ''EXP'') (str ''ID'')"
  by (simp add: edges_into_build conn_def str_def cp_def)

text \<open>
  C6 (amended): inserting a connector a second time, anywhere later in the connector
  list, leaves the set of upstream pairs of every field unchanged, and the per-field list
  is the list for a single insertion with the repeated pair kept as one more entry
  where it was inserted.
\<close>

theorem C6_duplicate_edge_same_upstream_set:
  "set (edges_into (build_instance_graph (xs @ c # ys @ c # zs)) i f)
     = set (edges_into (build_instance_graph (xs @ c # ys @ zs)) i f)
   \<and> edges_into (build_instance_graph (xs @ c # ys @ c # zs)) i f
     = edges_into (build_instance_graph (xs @ c # ys)) i f
       @ edges_into (build_instance_graph [c]) i f
       @ edges_into (build_instance_graph zs) i f"
  by (auto simp: edges_into_build)


section \<open>LineageBuilder.\_trace\_field\_lineage\<close>

text \<open>
  The tracer is a recursive function that mutates the set \<open>visited\<close> shared by all its
  calls; the model threads the set through and returns it with the steps. The loop over
  \<open>upstream_fields\<close> is \<open>trace_upstream\<close>. The visited key is the string
  \<open>f"{target_instance}.{target_field}"\<close>.
\<close>

definition get_transformation :: "FolderInfo \<Rightarrow> MappingInfo \<Rightarrow> InstanceInfo \<Rightarrow> TransformationInfo option" where
  "get_transformation folder mapping inst =
     (case map_of (mp_transformations mapping) (transformation_name inst) of
        Some t \<Rightarrow> Some t
      | None \<Rightarrow> map_of (fo_transformations folder) (transformation_name inst))"

definition visit_key :: "pystr \<Rightarrow> pystr \<Rightarrow> pystr" where
  "visit_key inst fld = inst @ (str ''.'') @ fld"

definition field_expression :: "TransformationInfo option \<Rightarrow> pystr \<Rightarrow> pystr option" where
  "field_expression transf fld =
     (case transf of None \<Rightarrow> None
      | Some t \<Rightarrow> (case map_of (tr_fields t) fld of None \<Rightarrow> None | Some fi \<Rightarrow> fi_expression fi))"

function trace_field_lineage ::
    "FolderInfo \<Rightarrow> MappingInfo \<Rightarrow> pystr \<Rightarrow> pystr \<Rightarrow> instance_graph \<Rightarrow> pystr set \<Rightarrow> int
      \<Rightarrow> TransformationStep list \<times> pystr set"
  and trace_upstream ::
    "FolderInfo \<Rightarrow> MappingInfo \<Rightarrow> (pystr \<times> pystr) list \<Rightarrow> instance_graph \<Rightarrow> pystr set \<Rightarrow> int
      \<Rightarrow> TransformationStep list \<times> pystr set"
where
  "trace_field_lineage folder mapping target_instance target_field graph visited so =
     (if visit_key target_instance target_field \<in> visited then ([], visited)
      else
        (let visited1 = insert (visit_key target_instance target_field) visited in
         case map_of (instances mapping) target_instance of
           None \<Rightarrow> ([], visited1)
         | Some instance_info \<Rightarrow>
            (let upstream_fields = edges_into graph target_instance target_field;
                 transf = get_transformation folder mapping instance_info;
                 step = \<lparr>step_order = so, instance_name = target_instance,
                         ts_transformation_type = transformation_type instance_info,
                         input_fields = upstream_fields,
                         output_fields = [(target_instance, target_field)],
                         expression = field_expression transf target_field\<rparr>;
                 (upstream_steps, visited2) =
                    trace_upstream folder mapping upstream_fields graph visited1 (so + 1)
             in (step # upstream_steps, visited2))))"
| "trace_upstream folder mapping [] graph visited so = ([], visited)"
| "trace_upstream folder mapping ((from_inst, from_fld) # rest) graph visited so =
     (let (steps1, visited1) = trace_field_lineage folder mapping from_inst from_fld graph visited so;
          (steps2, visited2) = trace_upstream folder mapping rest graph visited1 so
      in (steps1 @ steps2, visited2))"
  by pat_completeness auto


definition graph_pairs :: "instance_graph \<Rightarrow> (pystr \<times> pystr) list" where
  "graph_pairs graph = concat (map (\<lambda>(inst, d). concat (map snd d)) graph)"

definition pair_key :: "pystr \<times> pystr \<Rightarrow> pystr" where
  "pair_key p = visit_key (fst p) (snd p)"

lemma dict_values_concat: "(k, v) \<in> set d \<Longrightarrow> set v \<subseteq> set (concat (map snd d))"
  by (induction d) auto

lemma graph_pairs_entry: "(i, d) \<in> set graph \<Longrightarrow> set (concat (map snd d)) \<subseteq> set (graph_pairs graph)"
  by (induction graph) (auto simp: graph_pairs_def)

lemma edges_into_graph_pairs: "set (edges_into graph i f) \<subseteq> set (graph_pairs graph)"
proof (cases "map_of graph i")
  case None
  then show ?thesis by (simp add: edges_into_def dict_get_def)
next
  case (Some d)
  note d = Some
  show ?thesis
  proof (cases "map_of d f")
    case None
    with d show ?thesis by (simp add: edges_into_def dict_get_def)
  next
    case (Some l)
    from d have "(i, d) \<in> set graph" by (rule map_of_SomeD)
    then have 1: "set (concat (map snd d)) \<subseteq> set (graph_pairs graph)" by (rule graph_pairs_entry)
    from Some have "(f, l) \<in> set d" by (rule map_of_SomeD)
    then have 2: "set l \<subseteq> set (concat (map snd d))" by (rule dict_values_concat)
    from 1 2 have "set l \<subseteq> set (graph_pairs graph)" by (rule order_trans[rotated])
    with d Some show ?thesis by (simp add: edges_into_def dict_get_def)
  qed
qed

lemma trace_visited_mono_dom:
  "trace_field_lineage_trace_upstream_dom (Inl (folder, mapping, ti, tf, graph, visited, so)) \<Longrightarrow>
     visited \<subseteq> snd (trace_field_lineage folder mapping ti tf graph visited so)"
  "trace_field_lineage_trace_upstream_dom (Inr (folder, mapping, ups, graph, visited, so)) \<Longrightarrow>
     visited \<subseteq> snd (trace_upstream folder mapping ups graph visited so)"
proof (induction folder mapping ti tf graph visited so and folder mapping ups graph visited so
        rule: trace_field_lineage_trace_upstream.pinduct)
  case (1 folder mapping target_instance target_field graph visited so)
  show ?case
  proof (cases "visit_key target_instance target_field \<in> visited")
    case True
    with 1(1) show ?thesis by (simp add: trace_field_lineage.psimps)
  next
    case False
    note nv = False
    show ?thesis
    proof (cases "map_of (instances mapping) target_instance")
      case None
      with nv 1(1) show ?thesis by (auto simp: trace_field_lineage.psimps)
    next
      case (Some info)
      have "insert (visit_key target_instance target_field) visited
              \<subseteq> snd (trace_upstream folder mapping (edges_into graph target_instance target_field)
                     graph (insert (visit_key target_instance target_field) visited) (so + 1))"
        using 1(2)[OF nv refl Some refl refl refl] .
      with nv Some 1(1) show ?thesis
        by (auto simp: trace_field_lineage.psimps Let_def split: prod.splits)
    qed
  qed
next
  case (2 folder mapping graph visited so)
  then show ?case by (simp add: trace_upstream.psimps)
next
  case (3 folder mapping from_inst from_fld rest graph visited so)
  obtain steps1 v1 where r1:
    "trace_field_lineage folder mapping from_inst from_fld graph visited so = (steps1, v1)"
    by (cases "trace_field_lineage folder mapping from_inst from_fld graph visited so")
  have a: "visited \<subseteq> v1" using 3(2) r1 by simp
  have b: "v1 \<subseteq> snd (trace_upstream folder mapping rest graph v1 so)"
    using 3(3)[OF refl r1[symmetric]] .
  from a b r1 3(1) show ?case
    by (auto simp: trace_upstream.psimps Let_def split: prod.splits)
qed

definition trace_measure ::
  "(FolderInfo \<times> MappingInfo \<times> pystr \<times> pystr \<times> instance_graph \<times> pystr set \<times> int)
   + (FolderInfo \<times> MappingInfo \<times> (pystr \<times> pystr) list \<times> instance_graph \<times> pystr set \<times> int)
   \<Rightarrow> nat \<times> nat" where
  "trace_measure x =
     (case x of
        Inl (folder, mapping, ti, tf, graph, visited, so) \<Rightarrow>
          (card (insert (visit_key ti tf) (pair_key ` set (graph_pairs graph)) - visited), 0)
      | Inr (folder, mapping, ups, graph, visited, so) \<Rightarrow>
          (card ((pair_key ` set ups \<union> pair_key ` set (graph_pairs graph)) - visited), Suc (length ups)))"

termination trace_field_lineage
proof (relation "inv_image (less_than <*lex*> less_than) trace_measure", goal_cases)
  case 1
  show ?case by (intro wf_inv_image wf_lex_prod wf_less_than)
next
  case (2 folder mapping ti tf graph visited so v1 info ups transf step)
  let ?K = "pair_key ` set (graph_pairs graph)"
  have sub: "pair_key ` set ups \<subseteq> ?K"
    using 2(4) edges_into_graph_pairs[of graph ti tf] by auto
  have fin: "finite (insert (visit_key ti tf) ?K - visited)" by simp
  have "(pair_key ` set ups \<union> ?K) - v1 \<subset> insert (visit_key ti tf) ?K - visited"
    using 2(1,2) sub by blast
  then have "card ((pair_key ` set ups \<union> ?K) - v1) < card (insert (visit_key ti tf) ?K - visited)"
    using fin by (rule psubset_card_mono[rotated])
  then show ?case by (simp add: trace_measure_def)
next
  case (3 folder mapping from_inst from_fld rest graph visited so)
  let ?K = "pair_key ` set (graph_pairs graph)"
  have fin: "finite ((pair_key ` set ((from_inst, from_fld) # rest) \<union> ?K) - visited)" by simp
  have "insert (visit_key from_inst from_fld) ?K - visited
          \<subseteq> (pair_key ` set ((from_inst, from_fld) # rest) \<union> ?K) - visited"
    by (auto simp: pair_key_def)
  then have "card (insert (visit_key from_inst from_fld) ?K - visited)
          \<le> card ((pair_key ` set ((from_inst, from_fld) # rest) \<union> ?K) - visited)"
    using fin by (rule card_mono[rotated])
  then show ?case by (simp add: trace_measure_def le_less)
next
  case (4 folder mapping from_inst from_fld rest graph visited so x steps1 v1)
  let ?K = "pair_key ` set (graph_pairs graph)"
  have eq: "trace_field_lineage folder mapping from_inst from_fld graph visited so = (steps1, v1)"
    using 4(1,2) by simp
  have vs: "visited \<subseteq> v1"
    using trace_visited_mono_dom(1)[OF 4(3)] eq by simp
  have fin: "finite ((pair_key ` set ((from_inst, from_fld) # rest) \<union> ?K) - visited)" by simp
  have "(pair_key ` set rest \<union> ?K) - v1
          \<subseteq> (pair_key ` set ((from_inst, from_fld) # rest) \<union> ?K) - visited"
    using vs by auto
  then have "card ((pair_key ` set rest \<union> ?K) - v1)
          \<le> card ((pair_key ` set ((from_inst, from_fld) # rest) \<union> ?K) - visited)"
    using fin by (rule card_mono[rotated])
  then show ?case by (simp add: trace_measure_def le_less)
qed


definition out_pairs :: "TransformationStep list \<Rightarrow> (pystr \<times> pystr) list" where
  "out_pairs steps = concat (map output_fields steps)"

definition trace_ok ::
  "(pystr \<times> pystr) set \<Rightarrow> pystr set \<Rightarrow> TransformationStep list \<times> pystr set \<Rightarrow> bool" where
  "trace_ok P V r =
     (V \<subseteq> snd r \<and> snd r \<subseteq> V \<union> pair_key ` P
      \<and> pair_key ` set (out_pairs (fst r)) \<subseteq> snd r - V
      \<and> distinct (map pair_key (out_pairs (fst r)))
      \<and> set (out_pairs (fst r)) \<subseteq> P
      \<and> length (out_pairs (fst r)) = length (fst r))"

lemma trace_ok_skip: "trace_ok P V ([], V)"
  by (simp add: trace_ok_def out_pairs_def)

lemma trace_ok_unknown: "trace_ok (insert (i, f) G) V ([], insert (visit_key i f) V)"
  by (auto simp: trace_ok_def out_pairs_def pair_key_def)

lemma trace_ok_step:
  assumes nv: "visit_key i f \<notin> V"
    and sub: "set ups \<subseteq> G"
    and ih: "trace_ok (set ups \<union> G) (insert (visit_key i f) V) (ss, V')"
    and out: "output_fields st = [(i, f)]"
  shows "trace_ok (insert (i, f) G) V (st # ss, V')"
proof -
  from sub have eq: "set ups \<union> G = G" by auto
  from ih have 1: "insert (visit_key i f) V \<subseteq> V'"
    and 2: "V' \<subseteq> insert (visit_key i f) V \<union> pair_key ` G"
    and 3: "pair_key ` set (out_pairs ss) \<subseteq> V' - insert (visit_key i f) V"
    and 4: "distinct (map pair_key (out_pairs ss))"
    and 5: "set (out_pairs ss) \<subseteq> G"
    and 6: "length (out_pairs ss) = length ss"
    by (simp_all add: trace_ok_def eq)
  have o: "out_pairs (st # ss) = (i, f) # out_pairs ss"
    by (simp add: out_pairs_def out)
  have k: "pair_key (i, f) = visit_key i f" by (simp add: pair_key_def)
  have a: "V \<subseteq> V'" using 1 by auto
  have b: "V' \<subseteq> V \<union> pair_key ` insert (i, f) G" using 2 k by auto
  have c: "pair_key ` set (out_pairs (st # ss)) \<subseteq> V' - V"
    using 1 3 nv k unfolding o by auto
  have d: "distinct (map pair_key (out_pairs (st # ss)))"
    using 3 4 k unfolding o by auto
  have e: "set (out_pairs (st # ss)) \<subseteq> insert (i, f) G" using 5 unfolding o by auto
  have g: "length (out_pairs (st # ss)) = length (st # ss)" using 6 unfolding o by simp
  from a b c d e g show ?thesis by (simp add: trace_ok_def)
qed

lemma trace_ok_append:
  assumes ih1: "trace_ok (insert (i, f) G) V (s1, V1)"
    and ih2: "trace_ok (set rest \<union> G) V1 (s2, V2)"
  shows "trace_ok (set ((i, f) # rest) \<union> G) V (s1 @ s2, V2)"
proof -
  from ih1 have a1: "V \<subseteq> V1" and b1: "V1 \<subseteq> V \<union> pair_key ` insert (i, f) G"
    and c1: "pair_key ` set (out_pairs s1) \<subseteq> V1 - V"
    and d1: "distinct (map pair_key (out_pairs s1))"
    and e1: "set (out_pairs s1) \<subseteq> insert (i, f) G"
    and g1: "length (out_pairs s1) = length s1"
    by (simp_all add: trace_ok_def)
  from ih2 have a2: "V1 \<subseteq> V2" and b2: "V2 \<subseteq> V1 \<union> pair_key ` (set rest \<union> G)"
    and c2: "pair_key ` set (out_pairs s2) \<subseteq> V2 - V1"
    and d2: "distinct (map pair_key (out_pairs s2))"
    and e2: "set (out_pairs s2) \<subseteq> set rest \<union> G"
    and g2: "length (out_pairs s2) = length s2"
    by (simp_all add: trace_ok_def)
  have o: "out_pairs (s1 @ s2) = out_pairs s1 @ out_pairs s2" by (simp add: out_pairs_def)
  have a: "V \<subseteq> V2" using a1 a2 by auto
  have b: "V2 \<subseteq> V \<union> pair_key ` (set ((i, f) # rest) \<union> G)" using b1 b2 by auto
  have c: "pair_key ` set (out_pairs (s1 @ s2)) \<subseteq> V2 - V"
    using c1 c2 a1 a2 unfolding o by auto
  have dj: "pair_key ` set (out_pairs s1) \<inter> pair_key ` set (out_pairs s2) = {}"
    using c1 c2 by auto
  have d: "distinct (map pair_key (out_pairs (s1 @ s2)))"
    using d1 d2 dj unfolding o by simp
  have e: "set (out_pairs (s1 @ s2)) \<subseteq> set ((i, f) # rest) \<union> G"
    using e1 e2 unfolding o by auto
  have g: "length (out_pairs (s1 @ s2)) = length (s1 @ s2)" using g1 g2 unfolding o by simp
  from a b c d e g show ?thesis by (simp add: trace_ok_def)
qed

lemma trace_ok_both:
  "trace_ok (insert (ti, tf) (set (graph_pairs graph))) visited
     (trace_field_lineage folder mapping ti tf graph visited so)"
  "trace_ok (set ups \<union> set (graph_pairs graph)) visited
     (trace_upstream folder mapping ups graph visited so)"
proof (induction folder mapping ti tf graph visited so and folder mapping ups graph visited so
        rule: trace_field_lineage_trace_upstream.induct)
  case (1 folder mapping ti tf graph visited so)
  show ?case
  proof (cases "visit_key ti tf \<in> visited")
    case True
    then show ?thesis by (simp add: trace_ok_skip)
  next
    case False
    note nv = False
    show ?thesis
    proof (cases "map_of (instances mapping) ti")
      case None
      with nv show ?thesis by (simp add: trace_ok_unknown)
    next
      case (Some info)
      obtain ss V' where r: "trace_upstream folder mapping (edges_into graph ti tf) graph
                               (insert (visit_key ti tf) visited) (so + 1) = (ss, V')"
        by (cases "trace_upstream folder mapping (edges_into graph ti tf) graph
                               (insert (visit_key ti tf) visited) (so + 1)")
      have ih: "trace_ok (set (edges_into graph ti tf) \<union> set (graph_pairs graph))
                  (insert (visit_key ti tf) visited) (ss, V')"
        using 1[OF nv refl Some refl refl refl] r by simp
      have "trace_ok (insert (ti, tf) (set (graph_pairs graph))) visited
              (\<lparr>step_order = so, instance_name = ti,
                 ts_transformation_type = transformation_type info,
                 input_fields = edges_into graph ti tf,
                 output_fields = [(ti, tf)],
                 expression = field_expression (get_transformation folder mapping info) tf\<rparr> # ss, V')"
        by (rule trace_ok_step[OF nv edges_into_graph_pairs ih]) simp
      with nv Some r show ?thesis by (simp add: Let_def)
    qed
  qed
next
  case (2 folder mapping graph visited so)
  show ?case by (simp add: trace_ok_skip)
next
  case (3 folder mapping from_inst from_fld rest graph visited so)
  obtain s1 V1 where r1:
    "trace_field_lineage folder mapping from_inst from_fld graph visited so = (s1, V1)"
    by (cases "trace_field_lineage folder mapping from_inst from_fld graph visited so")
  obtain s2 V2 where r2: "trace_upstream folder mapping rest graph V1 so = (s2, V2)"
    by (cases "trace_upstream folder mapping rest graph V1 so")
  have ih1: "trace_ok (insert (from_inst, from_fld) (set (graph_pairs graph))) visited (s1, V1)"
    using 3(1) r1 by simp
  have ih2: "trace_ok (set rest \<union> set (graph_pairs graph)) V1 (s2, V2)"
    using 3(2)[OF refl r1[symmetric]] r2 by simp
  from trace_ok_append[OF ih1 ih2] r1 r2 show ?case by simp
qed


definition trace_nodes :: "instance_graph \<Rightarrow> pystr \<Rightarrow> pystr set" where
  "trace_nodes graph target_instance = insert target_instance (fst ` set (graph_pairs graph))"

definition trace_fields :: "instance_graph \<Rightarrow> pystr \<Rightarrow> pystr set" where
  "trace_fields graph target_field = insert target_field (snd ` set (graph_pairs graph))"

definition ex_inst :: "pystr \<Rightarrow> TransformationType \<Rightarrow> pystr \<times> InstanceInfo" where
  "ex_inst n t = (n, \<lparr>in_name = n, transformation_name = n, transformation_type = t, reusable = False\<rparr>)"

definition ex_folder :: FolderInfo where
  "ex_folder = \<lparr>fo_name = (str ''F''), sources = [], targets = [], fo_transformations = []\<rparr>"

definition ex_mapping_src :: MappingInfo where
  "ex_mapping_src =
     \<lparr>mp_name = (str ''m''),
      instances = [ex_inst (str ''SRC'') SOURCE_DEFINITION, ex_inst (str ''UP'') EXPRESSION],
      connectors = [conn (str ''UP'') (str ''x'') (str ''SRC'') (str ''a'')],
      mp_transformations = []\<rparr>"

definition ex_mapping_cycle :: MappingInfo where
  "ex_mapping_cycle =
     \<lparr>mp_name = (str ''c''),
      instances = [ex_inst (str ''A'') EXPRESSION, ex_inst (str ''B'') EXPRESSION],
      connectors = [conn (str ''B'') (str ''y'') (str ''A'') (str ''x''), conn (str ''A'') (str ''x'') (str ''B'') (str ''y'')],
      mp_transformations = []\<rparr>"

lemma trace_visited_bound:
  "snd (trace_field_lineage folder mapping ti tf graph {} so)
     \<subseteq> pair_key ` (trace_nodes graph ti \<times> trace_fields graph tf)"
proof -
  have "snd (trace_field_lineage folder mapping ti tf graph {} so)
          \<subseteq> pair_key ` insert (ti, tf) (set (graph_pairs graph))"
    using trace_ok_both(1)[of ti tf graph "{}" folder mapping so] by (simp add: trace_ok_def)
  moreover have "insert (ti, tf) (set (graph_pairs graph)) \<subseteq> trace_nodes graph ti \<times> trace_fields graph tf"
    by (auto simp: trace_nodes_def trace_fields_def intro: rev_image_eqI)
  ultimately show ?thesis by blast
qed

text \<open>
  C1: tracing a target field upstream terminates on every graph, cyclic or not:
  \<open>trace_field_lineage\<close> is a total function (its termination is proved above from the
  visited set, with no assumption on the graph). Each (node, field) pair is recorded at
  most once per call, every recorded step and every visited key belongs to a pair of
  \<open>nodes \<times> fields\<close>, and the number of steps and of visits is at most
  \<open>|nodes| * |fields|\<close>, where the nodes and fields are those of the connectors in the
  graph together with the traced target.
\<close>

theorem C1_trace_bounded:
  "(let r = trace_field_lineage folder mapping ti tf graph {} 0;
        steps = fst r; visited = snd r
    in distinct (out_pairs steps)
       \<and> length (out_pairs steps) = length steps
       \<and> set (out_pairs steps) \<subseteq> trace_nodes graph ti \<times> trace_fields graph tf
       \<and> pair_key ` set (out_pairs steps) \<subseteq> visited
       \<and> visited \<subseteq> pair_key ` (trace_nodes graph ti \<times> trace_fields graph tf)
       \<and> length steps \<le> card visited
       \<and> card visited \<le> card (trace_nodes graph ti) * card (trace_fields graph tf))"
proof -
  let ?r = "trace_field_lineage folder mapping ti tf graph {} 0"
  let ?N = "trace_nodes graph ti" and ?F = "trace_fields graph tf"
  have ok: "trace_ok (insert (ti, tf) (set (graph_pairs graph))) {} ?r"
    by (rule trace_ok_both(1))
  have finNF: "finite (?N \<times> ?F)" by (simp add: trace_nodes_def trace_fields_def)
  have vb: "snd ?r \<subseteq> pair_key ` (?N \<times> ?F)" by (rule trace_visited_bound)
  then have finV: "finite (snd ?r)" using finNF by (meson finite_imageI finite_subset)
  from ok have dk: "distinct (map pair_key (out_pairs (fst ?r)))"
    and len: "length (out_pairs (fst ?r)) = length (fst ?r)"
    and sub: "set (out_pairs (fst ?r)) \<subseteq> insert (ti, tf) (set (graph_pairs graph))"
    and ks: "pair_key ` set (out_pairs (fst ?r)) \<subseteq> snd ?r"
    by (auto simp: trace_ok_def)
  from dk have d: "distinct (out_pairs (fst ?r))" by (simp add: distinct_map)
  have sub': "set (out_pairs (fst ?r)) \<subseteq> ?N \<times> ?F"
    using sub by (auto simp: trace_nodes_def trace_fields_def intro: rev_image_eqI)
  have "length (fst ?r) = card (pair_key ` set (out_pairs (fst ?r)))"
    using dk len by (metis distinct_card length_map set_map)
  also have "\<dots> \<le> card (snd ?r)" using ks finV by (rule card_mono[rotated])
  finally have l1: "length (fst ?r) \<le> card (snd ?r)" .
  have "card (snd ?r) \<le> card (pair_key ` (?N \<times> ?F))"
    using vb finNF by (intro card_mono) auto
  also have "\<dots> \<le> card (?N \<times> ?F)" using finNF by (rule card_image_le)
  also have "\<dots> = card ?N * card ?F" by (rule card_cartesian_product)
  finally have l2: "card (snd ?r) \<le> card ?N * card ?F" .
  from d len sub' ks vb l1 l2 show ?thesis by (simp add: Let_def)
qed

lemma trace_cycle_example: "map instance_name (fst (trace_field_lineage ex_folder ex_mapping_cycle (str ''A'') (str ''x'')
         (build_instance_graph (connectors ex_mapping_cycle)) {} 0)) = [(str ''A''), (str ''B'')]"
  by (simp add: ex_mapping_cycle_def ex_inst_def conn_def edges_into_build visit_key_def Let_def str_def cp_def)

text \<open>
  C5 (as stated): a Source-kind node ends its branch and no edge is followed upstream
  from it. The tracer never reads the node kind to decide this: a Source Definition
  instance with an incoming connector is traced through, and the upstream instance gets
  a step of its own.
\<close>

theorem C5_source_counterexample:
  "map_of (instances ex_mapping_src) (str ''SRC'') = Some (snd (ex_inst (str ''SRC'') SOURCE_DEFINITION))
   \<and> map (\<lambda>s. (step_order s, instance_name s, ts_transformation_type s, input_fields s))
        (fst (trace_field_lineage ex_folder ex_mapping_src (str ''SRC'') (str ''a'')
               (build_instance_graph (connectors ex_mapping_src)) {} 0))
     = [(0, (str ''SRC''), SOURCE_DEFINITION, [((str ''UP''), (str ''x''))]), (1, (str ''UP''), EXPRESSION, [])]"
  by (simp add: ex_mapping_src_def ex_inst_def conn_def edges_into_build visit_key_def Let_def str_def cp_def)

text \<open>
  C5 (amended): a branch ends at a visited node that has no incoming connector for the
  traced field, which is how a Source-kind node appears in a mapping: exactly one step
  with empty \<open>input_fields\<close> is recorded and only the node's own key is added to the
  visited set.
\<close>

theorem C5_branch_ends_without_upstream:
  assumes "edges_into graph ti tf = []"
    and "visit_key ti tf \<notin> visited"
    and "map_of (instances mapping) ti = Some info"
  shows "trace_field_lineage folder mapping ti tf graph visited so =
           ([\<lparr>step_order = so, instance_name = ti,
              ts_transformation_type = transformation_type info,
              input_fields = [], output_fields = [(ti, tf)],
              expression = field_expression (get_transformation folder mapping info) tf\<rparr>],
            insert (visit_key ti tf) visited)"
  using assms by (simp add: Let_def)


theorem C5_branch_ends_without_upstream_witness:
  "edges_into (build_instance_graph (connectors ex_mapping_src)) (str ''UP'') (str ''x'') = []
   \<and> visit_key (str ''UP'') (str ''x'') \<notin> {visit_key (str ''SRC'') (str ''a'')}
   \<and> map_of (instances ex_mapping_src) (str ''UP'') = Some (snd (ex_inst (str ''UP'') EXPRESSION))
   \<and> trace_field_lineage ex_folder ex_mapping_src (str ''UP'') (str ''x'')
        (build_instance_graph (connectors ex_mapping_src)) {visit_key (str ''SRC'') (str ''a'')} 1 =
        ([\<lparr>step_order = 1, instance_name = (str ''UP''),
           ts_transformation_type = EXPRESSION,
           input_fields = [], output_fields = [((str ''UP''), (str ''x''))],
           expression = None\<rparr>],
         {visit_key (str ''UP'') (str ''x''), visit_key (str ''SRC'') (str ''a'')})"
proof -
  have h1: "edges_into (build_instance_graph (connectors ex_mapping_src)) (str ''UP'') (str ''x'') = []"
    by (simp add: ex_mapping_src_def conn_def edges_into_build str_def cp_def)
  have h2: "visit_key (str ''UP'') (str ''x'') \<notin> {visit_key (str ''SRC'') (str ''a'')}"
    by (simp add: visit_key_def str_def cp_def)
  have h3: "map_of (instances ex_mapping_src) (str ''UP'') = Some (snd (ex_inst (str ''UP'') EXPRESSION))"
    by (simp add: ex_mapping_src_def ex_inst_def str_def cp_def)
  have e: "field_expression (get_transformation ex_folder ex_mapping_src (snd (ex_inst (str ''UP'') EXPRESSION))) (str ''x'') = None"
    by (simp add: field_expression_def get_transformation_def ex_folder_def ex_mapping_src_def ex_inst_def)
  show ?thesis
    using h1 h2 h3 C5_branch_ends_without_upstream[OF h1 h2 h3, of ex_folder 1] e
    by (simp add: ex_inst_def)
qed

section \<open>SQLLineageParser.detect\_stored\_procedure\_call\<close>

text \<open>
  What \<open>str.upper\<close> returns and which code points the \<open>re\<close> module counts as
  whitespace (\<open>\s\<close>), as word characters (\<open>\w\<close>) and as equal under
  \<open>re.IGNORECASE\<close> is decided by the Unicode tables of the Python runtime. They are
  parameters of the model, so every function below is defined for every text, ASCII or
  not. \<open>re_fold_eq db c x\<close> says that the pattern character \<open>c\<close> matches the text
  character \<open>x\<close> when case is ignored.
\<close>

record unicode_db =
  str_upper :: "pystr \<Rightarrow> pystr"
  re_space :: "nat \<Rightarrow> bool"
  re_word :: "nat \<Rightarrow> bool"
  re_fold_eq :: "nat \<Rightarrow> nat \<Rightarrow> bool"

text \<open>
  On ASCII code points the tables are known: whitespace is 9-13, 28-31 and 32, word
  characters are the digits, the letters and the underscore, two ASCII characters are
  equal ignoring case when their upper-case forms are equal, and \<open>str.upper\<close> maps an
  ASCII string character by character. \<open>ascii_tables db\<close> says that \<open>db\<close> agrees with
  this on ASCII, which the tables of Python do; nothing is assumed outside ASCII.
\<close>

definition ascii_space :: "nat \<Rightarrow> bool" where
  "ascii_space c = ((9 \<le> c \<and> c \<le> 13) \<or> (28 \<le> c \<and> c \<le> 32))"

definition ascii_word :: "nat \<Rightarrow> bool" where
  "ascii_word c = ((48 \<le> c \<and> c \<le> 57) \<or> (65 \<le> c \<and> c \<le> 90) \<or> (97 \<le> c \<and> c \<le> 122) \<or> c = 95)"

definition ascii_upper :: "nat \<Rightarrow> nat" where
  "ascii_upper c = (if 97 \<le> c \<and> c \<le> 122 then c - 32 else c)"

definition is_ascii :: "pystr \<Rightarrow> bool" where
  "is_ascii s = list_all (\<lambda>c. c < 128) s"

definition ascii_tables :: "unicode_db \<Rightarrow> bool" where
  "ascii_tables db =
     ((\<forall>c. c < 128 \<longrightarrow> re_space db c = ascii_space c)
      \<and> (\<forall>c. c < 128 \<longrightarrow> re_word db c = ascii_word c)
      \<and> (\<forall>c x. c < 128 \<longrightarrow> x < 128 \<longrightarrow> re_fold_eq db c x = (ascii_upper c = ascii_upper x))
      \<and> (\<forall>s. is_ascii s \<longrightarrow> str_upper db s = map ascii_upper s))"

text \<open>
  The tables restricted to ASCII, for evaluating the functions on ASCII texts: by
  \<open>detect_ascii\<close> below the result on an ASCII text is the same for every \<open>db\<close> with
  \<open>ascii_tables db\<close>.
\<close>

definition ascii_db :: unicode_db where
  "ascii_db =
     \<lparr>str_upper = map ascii_upper, re_space = ascii_space, re_word = ascii_word,
      re_fold_eq = (\<lambda>c x. ascii_upper c = ascii_upper x)\<rparr>"

text \<open>
  The four patterns are sequences of literals, greedy repetitions of a character class
  (\<open>\s+\<close>, \<open>\s*\<close>, \<open>\w+\<close>, with an optional capture group) and one optional
  non-capturing group. \<open>rx_match\<close> is the backtracking matcher for such sequences:
  a repetition tries its longest run first and gives characters back one at a time, an
  optional group is tried before it is skipped, and the captures of a failed attempt are
  dropped. \<open>re_search\<close> tries every start position from the left, as \<open>re.search\<close> does.
  Literals are compared ignoring case (\<open>re.IGNORECASE\<close>).
\<close>

datatype rx_class = Space | Word

datatype rx_item =
    Lit nat
  | Many rx_class nat "nat option"
  | Opt "rx_item list"

type_synonym rx_groups = "(nat \<times> pystr) list"

fun in_class :: "unicode_db \<Rightarrow> rx_class \<Rightarrow> nat \<Rightarrow> bool" where
  "in_class db Space c = re_space db c"
| "in_class db Word c = re_word db c"

fun first_some :: "'a option list \<Rightarrow> 'a option" where
  "first_some [] = None"
| "first_some (None # xs) = first_some xs"
| "first_some (Some x # xs) = Some x"

definition set_group :: "nat option \<Rightarrow> pystr \<Rightarrow> rx_groups \<Rightarrow> rx_groups" where
  "set_group cap txt g = (case cap of None \<Rightarrow> g | Some n \<Rightarrow> AList.update n txt g)"

fun rx_match :: "unicode_db \<Rightarrow> rx_item list \<Rightarrow> pystr \<Rightarrow> rx_groups \<Rightarrow> rx_groups option" where
  "rx_match db [] s g = Some g"
| "rx_match db (Lit c # r) s g =
     (case s of [] \<Rightarrow> None
      | x # xs \<Rightarrow> if re_fold_eq db c x then rx_match db r xs g else None)"
| "rx_match db (Many cls n cap # r) s g =
     first_some (map (\<lambda>k. rx_match db r (drop k s) (set_group cap (take k s) g))
                     (rev [n ..< Suc (length (takeWhile (in_class db cls) s))]))"
| "rx_match db (Opt items # r) s g =
     (case rx_match db (items @ r) s g of
        Some g' \<Rightarrow> Some g'
      | None \<Rightarrow> rx_match db r s g)"

fun re_search :: "unicode_db \<Rightarrow> rx_item list \<Rightarrow> pystr \<Rightarrow> rx_groups option" where
  "re_search db p [] = rx_match db p [] []"
| "re_search db p (x # xs) =
     (case rx_match db p (x # xs) [] of
        Some g \<Rightarrow> Some g
      | None \<Rightarrow> re_search db p xs)"

definition re_match :: "unicode_db \<Rightarrow> rx_item list \<Rightarrow> pystr \<Rightarrow> rx_groups option" where
  "re_match db p s = rx_match db p s []"

definition lits :: "pystr \<Rightarrow> rx_item list" where
  "lits s = map Lit s"

definition qualified_name :: "rx_item list" where
  "qualified_name = [Opt [Many Word 1 (Some 1), Lit (cp (CHR ''.''))], Many Word 1 (Some 2)]"

definition call_patterns :: "rx_item list list" where
  "call_patterns =
     [lits (str ''CALL'') @ [Many Space 1 None] @ qualified_name @ [Many Space 0 None, Lit (cp (CHR ''(''))],
      lits (str ''EXECUTE'') @ [Many Space 1 None] @ qualified_name @ [Many Space 0 None],
      lits (str ''BEGIN'') @ [Many Space 1 None] @ qualified_name @ [Many Space 0 None, Lit (cp (CHR ''(''))],
      [Lit (cp (CHR ''{'')), Many Space 0 None] @ lits (str ''call'') @ [Many Space 1 None] @ qualified_name
        @ [Many Space 0 None, Lit (cp (CHR ''(''))]]"

definition match_groups :: "rx_groups \<Rightarrow> pystr \<times> pystr" where
  "match_groups g = (dict_get g 1 [], dict_get g 2 [])"

fun detect_loop :: "unicode_db \<Rightarrow> rx_item list list \<Rightarrow> pystr \<Rightarrow> (pystr \<times> pystr) option" where
  "detect_loop db [] sql = None"
| "detect_loop db (pattern # patterns) sql =
     (case re_search db pattern sql of
        Some g \<Rightarrow> Some (match_groups g)
      | None \<Rightarrow> detect_loop db patterns sql)"

definition detect_stored_procedure_call :: "unicode_db \<Rightarrow> pystr \<Rightarrow> (pystr \<times> pystr) option" where
  "detect_stored_procedure_call db sql = detect_loop db call_patterns sql"


section \<open>SQLLineageParser.\_parse\_with\_sqlglot and LineageBuilder.\_parse\_sql\_lineage\<close>

text \<open>
  sqlglot is a third-party parser. The model takes its result as a parameter
  (\<open>parse_one\<close>) and embeds what the code reads from the parsed statement: the tables
  with their names and aliases (\<open>parsed.find_all(exp.Table)\<close>), and for each select
  expression its kind, the columns found in its inner expression as (name, table
  qualifier) pairs with the empty string for no qualifier, and its SQL text.
\<close>

datatype select_kind = AliasExpr pystr | ColumnExpr pystr | StarExpr | OtherExpr

record select_expr =
  se_kind :: select_kind
  se_columns :: "(pystr \<times> pystr) list"
  se_sql :: pystr

record select_ast =
  ast_tables :: "(pystr \<times> pystr) list"
  ast_expressions :: "select_expr list"

datatype sqlglot_result = Raises | NotSelect | Select select_ast

record sqlglot_env =
  sql_parsing_available :: bool
  parse_one :: "pystr \<Rightarrow> sqlglot_result"
  unicode :: unicode_db

type_synonym source_tables = "(pystr, (pystr, FieldInfo) dict) dict"
type_synonym lineage_result = "(pystr \<times> pystr) list \<times> pystr \<times> pystr option"

definition ends_with :: "pystr \<Rightarrow> pystr \<Rightarrow> bool" where
  "ends_with s suf = (length suf \<le> length s \<and> drop (length s - length suf) s = suf)"

definition match_known_table :: "unicode_db \<Rightarrow> source_tables \<Rightarrow> pystr \<Rightarrow> pystr option" where
  "match_known_table db source_tables table_name =
     List.find (\<lambda>known_table. str_upper db known_table = str_upper db table_name
                  \<or> ends_with (str_upper db known_table) ((str ''.'') @ str_upper db table_name))
       (map fst source_tables)"

definition add_source_ref :: "unicode_db \<Rightarrow> source_tables \<Rightarrow> (pystr, pystr) dict \<Rightarrow> pystr \<times> pystr \<Rightarrow> (pystr, pystr) dict" where
  "add_source_ref db source_tables source_refs tbl =
     (let table_name = fst tbl;
          alias = (if snd tbl \<noteq> [] then snd tbl else table_name)
      in case match_known_table db source_tables table_name of
           Some matched_table \<Rightarrow>
             (if matched_table \<noteq> [] then AList.update (str_upper db alias) matched_table source_refs
              else AList.update (str_upper db alias) table_name source_refs)
         | None \<Rightarrow> AList.update (str_upper db alias) table_name source_refs)"

definition build_source_refs :: "unicode_db \<Rightarrow> source_tables \<Rightarrow> (pystr \<times> pystr) list \<Rightarrow> (pystr, pystr) dict" where
  "build_source_refs db source_tables tbls = foldl (add_source_ref db source_tables) [] tbls"

definition column_candidates :: "unicode_db \<Rightarrow> pystr \<Rightarrow> source_tables \<Rightarrow> pystr list" where
  "column_candidates db column_name source_tables =
     concat (map (\<lambda>(table_name, fields).
                    concat (map (\<lambda>field_name. if str_upper db field_name = str_upper db column_name then [table_name] else [])
                                (map fst fields)))
                 source_tables)"

definition resolve_column_table :: "unicode_db \<Rightarrow> pystr \<Rightarrow> source_tables \<Rightarrow> pystr option" where
  "resolve_column_table db column_name source_tables =
     (case column_candidates db column_name source_tables of
        [c] \<Rightarrow> Some c
      | _ \<Rightarrow> None)"

definition resolve_table :: "unicode_db \<Rightarrow> (pystr, pystr) dict \<Rightarrow> source_tables \<Rightarrow> pystr \<times> pystr \<Rightarrow> pystr option" where
  "resolve_table db source_refs source_tables col =
     (let col_name = fst col;
          table_ref = (if snd col \<noteq> [] then Some (str_upper db (snd col)) else None)
      in case table_ref of
           Some tr \<Rightarrow>
             (if tr \<noteq> [] \<and> map_of source_refs tr \<noteq> None then map_of source_refs tr
              else if tr \<noteq> [] then Some tr
              else if length source_refs = 1 then Some (snd (hd source_refs))
              else resolve_column_table db col_name source_tables)
         | None \<Rightarrow>
             (if length source_refs = 1 then Some (snd (hd source_refs))
              else resolve_column_table db col_name source_tables))"

definition upstream_cols_of :: "unicode_db \<Rightarrow> (pystr, pystr) dict \<Rightarrow> source_tables \<Rightarrow> (pystr \<times> pystr) list \<Rightarrow> (pystr \<times> pystr) list" where
  "upstream_cols_of db source_refs source_tables cols =
     concat (map (\<lambda>col. case resolve_table db source_refs source_tables col of
                           Some resolved_table \<Rightarrow> (if resolved_table \<noteq> [] then [(resolved_table, fst col)] else [])
                         | None \<Rightarrow> [])
                 cols)"

fun digit_char :: "nat \<Rightarrow> nat" where
  "digit_char n = 48 + n"

fun str_nat :: "nat \<Rightarrow> pystr" where
  "str_nat n = (if n < 10 then [digit_char n] else str_nat (n div 10) @ [digit_char (n mod 10)])"

definition output_col_of :: "nat \<Rightarrow> select_expr \<Rightarrow> pystr" where
  "output_col_of i select_expr =
     (case se_kind select_expr of
        AliasExpr a \<Rightarrow> a
      | ColumnExpr n \<Rightarrow> n
      | _ \<Rightarrow> (str ''expr_'') @ str_nat i)"

definition star_results :: "source_tables \<Rightarrow> lineage_result list" where
  "star_results source_tables =
     concat (map (\<lambda>(table_name, fields).
                    map (\<lambda>field_name. ([(table_name, field_name)], field_name, None)) (map fst fields))
                 source_tables)"

definition select_results :: "unicode_db \<Rightarrow> (pystr, pystr) dict \<Rightarrow> source_tables \<Rightarrow> nat \<times> select_expr \<Rightarrow> lineage_result list" where
  "select_results db source_refs source_tables ie =
     (let i = fst ie; select_expr = snd ie;
          output_col = output_col_of i select_expr;
          upstream_cols = upstream_cols_of db source_refs source_tables (se_columns select_expr);
          expr_text = se_sql select_expr
      in if se_kind select_expr = StarExpr then star_results source_tables
         else if upstream_cols \<noteq> [] then [(upstream_cols, output_col, Some expr_text)]
         else [])"

definition parse_with_sqlglot :: "sqlglot_env \<Rightarrow> pystr \<Rightarrow> source_tables \<Rightarrow> lineage_result list" where
  "parse_with_sqlglot sq sql source_tables =
     (case parse_one sq sql of
        Raises \<Rightarrow> []
      | NotSelect \<Rightarrow> []
      | Select parsed \<Rightarrow>
          (let source_refs = build_source_refs (unicode sq) source_tables (ast_tables parsed)
           in concat (map (select_results (unicode sq) source_refs source_tables)
                          (enumerate 0 (ast_expressions parsed)))))"

definition parse_sql :: "sqlglot_env \<Rightarrow> pystr \<Rightarrow> source_tables \<Rightarrow> lineage_result list" where
  "parse_sql sq sql source_tables =
     (if \<not> sql_parsing_available sq then [] else parse_with_sqlglot sq sql source_tables)"

definition build_source_dataset_name :: "SourceDefinition \<Rightarrow> pystr" where
  "build_source_dataset_name source =
     (case sd_owner_name source of
        Some owner \<Rightarrow> (if owner \<noteq> [] then owner @ (str ''.'') @ sd_name source else sd_name source)
      | None \<Rightarrow> sd_name source)"

definition build_target_dataset_name :: "TargetDefinition \<Rightarrow> pystr" where
  "build_target_dataset_name target =
     (case td_owner_name target of
        Some owner \<Rightarrow> (if owner \<noteq> [] then owner @ (str ''.'') @ td_name target else td_name target)
      | None \<Rightarrow> td_name target)"

definition proc_call_edge :: "pystr \<Rightarrow> pystr \<Rightarrow> pystr \<Rightarrow> pystr \<Rightarrow> pystr \<Rightarrow> TransformationStep \<Rightarrow> ColumnLineageEdge" where
  "proc_call_edge verb schema proc_name target_table target_col step =
     \<lparr>source_dataset = (if schema \<noteq> [] then schema @ (str ''.'') @ proc_name else proc_name),
      source_column = (str ''*''),
      target_dataset = target_table,
      target_column = target_col,
      cle_transformation_type = STORED_PROCEDURE,
      transformation_expression =
        Some (if schema \<noteq> [] then verb @ (str '' '') @ schema @ (str ''.'') @ proc_name else verb @ (str '' '') @ proc_name),
      confidence_score = 1,
      cle_step_order = step_order step\<rparr>"

definition folder_source_tables :: "FolderInfo \<Rightarrow> source_tables" where
  "folder_source_tables folder =
     foldl (\<lambda>source_tables (source_name, source_def). AList.update source_name (sd_fields source_def) source_tables)
       [] (sources folder)"

definition sql_result_edges :: "unicode_db \<Rightarrow> FolderInfo \<Rightarrow> pystr \<Rightarrow> pystr \<Rightarrow> TransformationStep \<Rightarrow> lineage_result \<Rightarrow> ColumnLineageEdge list" where
  "sql_result_edges db folder target_table target_col step res =
     (case res of (upstream_cols, output_col, expr) \<Rightarrow>
        if str_upper db output_col = str_upper db target_col then
          concat (map (\<lambda>(tbl, col).
                        case map_of (sources folder) tbl of
                          None \<Rightarrow> []
                        | Some source_def \<Rightarrow>
                            [\<lparr>source_dataset = build_source_dataset_name source_def,
                              source_column = col,
                              target_dataset = target_table,
                              target_column = target_col,
                              cle_transformation_type = SOURCE_QUALIFIER,
                              transformation_expression = expr,
                              confidence_score = 95 / 100,
                              cle_step_order = step_order step\<rparr>])
                      upstream_cols)
        else [])"

definition parse_sql_lineage ::
  "sqlglot_env \<Rightarrow> FolderInfo \<Rightarrow> pystr \<Rightarrow> pystr \<Rightarrow> pystr \<Rightarrow> TransformationStep \<Rightarrow> ColumnLineageEdge list" where
  "parse_sql_lineage sq folder sql target_table target_col step =
     (case detect_stored_procedure_call (unicode sq) sql of
        Some (schema, proc_name) \<Rightarrow> [proc_call_edge (str ''CALL'') schema proc_name target_table target_col step]
      | None \<Rightarrow>
          concat (map (sql_result_edges (unicode sq) folder target_table target_col step)
                      (parse_sql sq sql (folder_source_tables folder))))"

definition build_stored_proc_lineage ::
  "TransformationInfo option \<Rightarrow> pystr \<Rightarrow> pystr \<Rightarrow> TransformationStep \<Rightarrow> ColumnLineageEdge list" where
  "build_stored_proc_lineage transf target_table target_col step =
     (case transf of
        None \<Rightarrow> []
      | Some t \<Rightarrow>
         (case stored_proc_name t of
            None \<Rightarrow> []
          | Some proc_name \<Rightarrow>
              if proc_name = [] then []
              else [proc_call_edge (str ''EXEC'') (case stored_proc_schema t of None \<Rightarrow> [] | Some s \<Rightarrow> s)
                      proc_name target_table target_col step]))"

section \<open>LineageBuilder.build\_column\_lineage\_edges\<close>

definition found_source :: "FolderInfo \<Rightarrow> InstanceInfo \<Rightarrow> pystr \<Rightarrow> (pystr \<times> pystr) option" where
  "found_source folder inst current_field =
     (if transformation_type inst = SOURCE_DEFINITION then
        (case map_of (sources folder) (transformation_name inst) of
           Some source_def \<Rightarrow> Some (build_source_dataset_name source_def, current_field)
         | None \<Rightarrow> None)
      else None)"

definition connectors_into :: "MappingInfo \<Rightarrow> pystr \<Rightarrow> pystr \<Rightarrow> (pystr \<times> pystr) list" where
  "connectors_into mapping current_inst current_field =
     map (\<lambda>c. (from_instance c, from_field c))
       (filter (\<lambda>c. to_instance c = current_inst \<and> to_field c = current_field) (connectors mapping))"

function find_source_loop ::
  "FolderInfo \<Rightarrow> MappingInfo \<Rightarrow> (pystr \<times> pystr) list \<Rightarrow> pystr set \<Rightarrow> (pystr \<times> pystr) option" where
  "find_source_loop folder mapping [] visited = None"
| "find_source_loop folder mapping ((current_inst, current_field) # queue) visited =
     (if visit_key current_inst current_field \<in> visited then find_source_loop folder mapping queue visited
      else
        (case map_of (instances mapping) current_inst of
           None \<Rightarrow> find_source_loop folder mapping queue (insert (visit_key current_inst current_field) visited)
         | Some inst \<Rightarrow>
            (case found_source folder inst current_field of
               Some r \<Rightarrow> Some r
             | None \<Rightarrow>
                 find_source_loop folder mapping
                   (queue @ connectors_into mapping current_inst current_field)
                   (insert (visit_key current_inst current_field) visited))))"
  by pat_completeness auto

definition find_source_measure ::
  "FolderInfo \<times> MappingInfo \<times> (pystr \<times> pystr) list \<times> pystr set \<Rightarrow> nat \<times> nat" where
  "find_source_measure x =
     (case x of (folder, mapping, queue, visited) \<Rightarrow>
        (card (pair_key ` (set queue \<union> (\<lambda>c. (from_instance c, from_field c)) ` set (connectors mapping)) - visited),
         length queue))"

termination find_source_loop
proof (relation "inv_image (less_than <*lex*> less_than) find_source_measure", goal_cases)
  case 1
  show ?case by (intro wf_inv_image wf_lex_prod wf_less_than)
next
  case (2 folder mapping ci cf queue visited)
  let ?C = "(\<lambda>c. (from_instance c, from_field c)) ` set (connectors mapping)"
  have "card (pair_key ` (set queue \<union> ?C) - visited)
          \<le> card (pair_key ` (set ((ci, cf) # queue) \<union> ?C) - visited)"
    by (intro card_mono) auto
  then show ?case by (simp add: find_source_measure_def le_less)
next
  case (3 folder mapping ci cf queue visited)
  let ?C = "(\<lambda>c. (from_instance c, from_field c)) ` set (connectors mapping)"
  have "card (pair_key ` (set queue \<union> ?C) - insert (visit_key ci cf) visited)
          \<le> card (pair_key ` (set ((ci, cf) # queue) \<union> ?C) - visited)"
    by (intro card_mono) auto
  then show ?case by (simp add: find_source_measure_def le_less)
next
  case (4 folder mapping ci cf queue visited inst)
  let ?C = "(\<lambda>c. (from_instance c, from_field c)) ` set (connectors mapping)"
  have sub: "set (connectors_into mapping ci cf) \<subseteq> ?C"
    by (auto simp: connectors_into_def)
  have k: "pair_key (ci, cf) = visit_key ci cf" by (simp add: pair_key_def)
  have "pair_key ` (set (queue @ connectors_into mapping ci cf) \<union> ?C) - insert (visit_key ci cf) visited
          \<subset> pair_key ` (set ((ci, cf) # queue) \<union> ?C) - visited"
    using 4(1) sub k by auto
  then have "card (pair_key ` (set (queue @ connectors_into mapping ci cf) \<union> ?C) - insert (visit_key ci cf) visited)
          < card (pair_key ` (set ((ci, cf) # queue) \<union> ?C) - visited)"
    by (intro psubset_card_mono) auto
  then show ?case by (simp add: find_source_measure_def)
qed

definition find_source_for_instance ::
  "FolderInfo \<Rightarrow> MappingInfo \<Rightarrow> pystr \<Rightarrow> pystr \<Rightarrow> (pystr \<times> pystr) option" where
  "find_source_for_instance folder mapping inst_name fld_name =
     find_source_loop folder mapping [(inst_name, fld_name)] {}"

definition target_field_chains ::
  "FolderInfo \<Rightarrow> MappingInfo \<Rightarrow> instance_graph \<Rightarrow> (pystr, TransformationStep list) dict
     \<Rightarrow> InstanceInfo \<Rightarrow> (pystr, TransformationStep list) dict" where
  "target_field_chains folder mapping graph lineage_chains target_inst =
     (let target_name = transformation_name target_inst in
      case map_of (targets folder) target_name of
        None \<Rightarrow> lineage_chains
      | Some target_def \<Rightarrow>
          foldl (\<lambda>chains field_name.
                   let field_key = target_name @ (str ''.'') @ field_name;
                       chain = fst (trace_field_lineage folder mapping (in_name target_inst) field_name graph {} 0)
                   in if chain \<noteq> [] then AList.update field_key chain chains else chains)
                lineage_chains (map fst (td_fields target_def)))"

definition build_mapping_lineage :: "FolderInfo \<Rightarrow> MappingInfo \<Rightarrow> (pystr, TransformationStep list) dict" where
  "build_mapping_lineage folder mapping =
     (let graph = build_instance_graph (connectors mapping);
          target_instances = filter (\<lambda>inst. transformation_type inst = TARGET_DEFINITION)
                               (map snd (instances mapping))
      in foldl (target_field_chains folder mapping graph) [] target_instances)"

definition split_first_dot :: "pystr \<Rightarrow> pystr \<times> pystr" where
  "split_first_dot s = (takeWhile (\<lambda>c. c \<noteq> cp (CHR ''.'')) s, drop 1 (dropWhile (\<lambda>c. c \<noteq> cp (CHR ''.'')) s))"

definition connector_edge ::
  "pystr \<Rightarrow> pystr \<Rightarrow> TargetDefinition \<Rightarrow> pystr \<Rightarrow> TransformationStep \<Rightarrow> ColumnLineageEdge" where
  "connector_edge src_dataset src_column target_def target_col step =
     \<lparr>source_dataset = src_dataset,
      source_column = src_column,
      target_dataset = build_target_dataset_name target_def,
      target_column = target_col,
      cle_transformation_type = ts_transformation_type step,
      transformation_expression = expression step,
      confidence_score = 1,
      cle_step_order = step_order step\<rparr>"

definition source_definition_edges ::
  "FolderInfo \<Rightarrow> InstanceInfo \<Rightarrow> TargetDefinition \<Rightarrow> pystr \<Rightarrow> TransformationStep \<Rightarrow> ColumnLineageEdge list" where
  "source_definition_edges folder inst target_def target_col step =
     (case map_of (sources folder) (transformation_name inst) of
        None \<Rightarrow> []
      | Some source_def \<Rightarrow>
          map (\<lambda>(from_inst, from_fld).
                 connector_edge (build_source_dataset_name source_def) from_fld target_def target_col step)
              (input_fields step))"

definition standard_edges ::
  "FolderInfo \<Rightarrow> MappingInfo \<Rightarrow> TargetDefinition \<Rightarrow> pystr \<Rightarrow> TransformationStep \<Rightarrow> ColumnLineageEdge list" where
  "standard_edges folder mapping target_def target_col step =
     concat (map (\<lambda>(from_inst, from_fld).
                    case find_source_for_instance folder mapping from_inst from_fld of
                      None \<Rightarrow> []
                    | Some (src_dataset, source_col) \<Rightarrow>
                        [connector_edge src_dataset source_col target_def target_col step])
                 (input_fields step))"

definition step_edges ::
  "sqlglot_env \<Rightarrow> FolderInfo \<Rightarrow> MappingInfo \<Rightarrow> pystr \<Rightarrow> pystr \<Rightarrow> TargetDefinition
     \<Rightarrow> TransformationStep \<Rightarrow> ColumnLineageEdge list" where
  "step_edges sq folder mapping target_table target_col target_def step =
     (case map_of (instances mapping) (instance_name step) of
        None \<Rightarrow> []
      | Some inst \<Rightarrow>
          (let transf = get_transformation folder mapping inst;
               sql = (case transf of None \<Rightarrow> None | Some t \<Rightarrow> sql_query t)
           in if transformation_type inst = SOURCE_QUALIFIER \<and> sql \<noteq> None \<and> sql \<noteq> Some [] then
                parse_sql_lineage sq folder (the sql) target_table target_col step
              else if transformation_type inst = STORED_PROCEDURE then
                build_stored_proc_lineage transf target_table target_col step
              else if transformation_type inst = SOURCE_DEFINITION then
                source_definition_edges folder inst target_def target_col step
              else standard_edges folder mapping target_def target_col step))"

definition chain_edges ::
  "sqlglot_env \<Rightarrow> FolderInfo \<Rightarrow> MappingInfo \<Rightarrow> pystr \<times> TransformationStep list \<Rightarrow> ColumnLineageEdge list" where
  "chain_edges sq folder mapping kc =
     (let target_table = fst (split_first_dot (fst kc));
          target_col = snd (split_first_dot (fst kc))
      in case map_of (targets folder) target_table of
           None \<Rightarrow> []
         | Some target_def \<Rightarrow>
             concat (map (step_edges sq folder mapping target_table target_col target_def) (snd kc)))"

definition build_column_lineage_edges ::
  "sqlglot_env \<Rightarrow> FolderInfo \<Rightarrow> MappingInfo \<Rightarrow> ColumnLineageEdge list" where
  "build_column_lineage_edges sq folder mapping =
     concat (map (chain_edges sq folder mapping) (build_mapping_lineage folder mapping))"

section \<open>DataHubLineageEmitter.\_build\_job\_io and emit\_dataset\_lineage\<close>

text \<open>
  \<open>make_dataset_urn\<close> and \<open>make_schema_field_urn\<close> are functions of the DataHub
  client library; they are parameters of the model. Python sets of URNs are HOL sets:
  the order in which the code later lists them is the iteration order of the set.
\<close>

record emitter_config =
  platform :: pystr
  platform_instance :: "pystr option"
  oracle_platform_instance :: "pystr option"
  env :: pystr
  make_dataset_urn :: "pystr \<Rightarrow> pystr \<Rightarrow> pystr \<Rightarrow> pystr"
  make_schema_field_urn :: "pystr \<Rightarrow> pystr \<Rightarrow> pystr"

record FineGrainedLineage =
  upstreamType :: pystr
  upstreams :: "pystr list"
  downstreamType :: pystr
  downstreams :: "pystr list"
  transformOperation :: "pystr option"
  confidenceScore :: real

record UpstreamLineage =
  ul_upstreams :: "pystr set"
  fineGrainedLineages :: "FineGrainedLineage list option"

definition build_dataset_urn :: "emitter_config \<Rightarrow> pystr \<Rightarrow> bool \<Rightarrow> pystr" where
  "build_dataset_urn cfg dataset_name is_source =
     (case (if is_source then oracle_platform_instance cfg else platform_instance cfg) of
        Some inst \<Rightarrow>
          (if inst \<noteq> [] then
             (str ''urn:li:dataset:(urn:li:dataPlatform:'') @ platform cfg @ (str '','') @ inst @ (str ''.'') @ dataset_name
               @ (str '','') @ env cfg @ (str '')'')
           else make_dataset_urn cfg (platform cfg) dataset_name (env cfg))
      | None \<Rightarrow> make_dataset_urn cfg (platform cfg) dataset_name (env cfg))"

definition group_add :: "('a \<Rightarrow> 'k) \<Rightarrow> ('k, 'a list) dict \<Rightarrow> 'a \<Rightarrow> ('k, 'a list) dict" where
  "group_add f d x = (let d1 = dict_init (f x) [] d in AList.update (f x) (dict_get d1 (f x) [] @ [x]) d1)"

definition group_by :: "('a \<Rightarrow> 'k) \<Rightarrow> 'a list \<Rightarrow> ('k, 'a list) dict" where
  "group_by f xs = foldl (group_add f) [] xs"

definition source_urn :: "emitter_config \<Rightarrow> ColumnLineageEdge \<Rightarrow> pystr" where
  "source_urn cfg edge = build_dataset_urn cfg (source_dataset edge) True"

definition add_upstream_field :: "emitter_config \<Rightarrow> pystr list \<Rightarrow> ColumnLineageEdge \<Rightarrow> pystr list" where
  "add_upstream_field cfg upstream_field_urns edge =
     (if source_column edge \<noteq> (str ''*'') then
        (let field_urn = make_schema_field_urn cfg (source_urn cfg edge) (source_column edge)
         in if field_urn \<notin> set upstream_field_urns then upstream_field_urns @ [field_urn]
            else upstream_field_urns)
      else upstream_field_urns)"

definition upstream_field_urns_of :: "emitter_config \<Rightarrow> ColumnLineageEdge list \<Rightarrow> pystr list" where
  "upstream_field_urns_of cfg edges = foldl (add_upstream_field cfg) [] edges"

definition rsplit_last_dot :: "pystr \<Rightarrow> pystr \<times> pystr" where
  "rsplit_last_dot s =
     (if cp (CHR ''.'') \<in> set s then
        (rev (drop 1 (dropWhile (\<lambda>c. c \<noteq> cp (CHR ''.'')) (rev s))), rev (takeWhile (\<lambda>c. c \<noteq> cp (CHR ''.'')) (rev s)))
      else (s, s))"

fun join :: "pystr \<Rightarrow> pystr list \<Rightarrow> pystr" where
  "join sep [] = []"
| "join sep [x] = x"
| "join sep (x # y # ys) = x @ sep @ join sep (y # ys)"

definition py_min :: "real list \<Rightarrow> real" where
  "py_min xs = foldl min (hd xs) (tl xs)"

definition truthy :: "pystr option \<Rightarrow> bool" where
  "truthy s = (s \<noteq> None \<and> s \<noteq> Some [])"

definition target_key_of :: "ColumnLineageEdge \<Rightarrow> pystr" where
  "target_key_of edge = target_dataset edge @ (str ''.'') @ target_column edge"

definition job_io_group ::
  "emitter_config \<Rightarrow> pystr set \<times> pystr set \<times> FineGrainedLineage list
     \<Rightarrow> pystr \<times> ColumnLineageEdge list \<Rightarrow> pystr set \<times> pystr set \<times> FineGrainedLineage list" where
  "job_io_group cfg st grp =
     (case st of (input_datasets, output_datasets, fine_grained) \<Rightarrow>
      case grp of (target_key, edges) \<Rightarrow>
       (let upstream_field_urns = upstream_field_urns_of cfg edges;
            input_datasets1 = input_datasets \<union> source_urn cfg ` set edges;
            target_ds = fst (rsplit_last_dot target_key);
            target_col = snd (rsplit_last_dot target_key);
            target_urn = build_dataset_urn cfg target_ds False;
            target_field_urn = make_schema_field_urn cfg target_urn target_col;
            expressions = map the (filter truthy (map transformation_expression edges));
            combined_expr = (if expressions \<noteq> [] then Some (join (str '' -> '') expressions) else None);
            confidence = (if edges \<noteq> [] then py_min (map confidence_score edges) else 1)
        in (input_datasets1, insert target_urn output_datasets,
            if upstream_field_urns \<noteq> [] then
              fine_grained @ [\<lparr>upstreamType = (str ''FIELD_SET''), upstreams = upstream_field_urns,
                               downstreamType = (str ''FIELD''), downstreams = [target_field_urn],
                               transformOperation = combined_expr, confidenceScore = confidence\<rparr>]
            else fine_grained)))"

definition build_job_io ::
  "emitter_config \<Rightarrow> ColumnLineageEdge list \<Rightarrow> pystr set \<times> pystr set \<times> FineGrainedLineage list" where
  "build_job_io cfg lineage_edges =
     foldl (job_io_group cfg) ({}, {}, []) (group_by target_key_of lineage_edges)"

fun type_value :: "TransformationType \<Rightarrow> pystr" where
  "type_value SOURCE_DEFINITION = (str ''Source Definition'')"
| "type_value SOURCE_QUALIFIER = (str ''Source Qualifier'')"
| "type_value TARGET_DEFINITION = (str ''Target Definition'')"
| "type_value EXPRESSION = (str ''Expression'')"
| "type_value FILTER = (str ''Filter'')"
| "type_value AGGREGATOR = (str ''Aggregator'')"
| "type_value JOINER = (str ''Joiner'')"
| "type_value LOOKUP = (str ''Lookup Procedure'')"
| "type_value ROUTER = (str ''Router'')"
| "type_value SORTER = (str ''Sorter'')"
| "type_value SEQUENCE_GENERATOR = (str ''Sequence Generator'')"
| "type_value NORMALIZER = (str ''Normalizer'')"
| "type_value RANK = (str ''Rank'')"
| "type_value UNION = (str ''Union'')"
| "type_value UPDATE_STRATEGY = (str ''Update Strategy'')"
| "type_value STORED_PROCEDURE = (str ''Stored Procedure'')"
| "type_value CUSTOM_TRANSFORMATION = (str ''Custom Transformation'')"
| "type_value UNKNOWN = (str ''Unknown'')"

definition arrow :: pystr where
  "arrow = [0x20, 0x2192, 0x20]"

definition column_fgl :: "emitter_config \<Rightarrow> pystr \<Rightarrow> pystr \<times> ColumnLineageEdge list \<Rightarrow> FineGrainedLineage list" where
  "column_fgl cfg target_urn grp =
     (case grp of (target_col, col_edges) \<Rightarrow>
       (let upstream_fields = upstream_field_urns_of cfg col_edges in
        if upstream_fields \<noteq> [] then
          (let sorted_edges = sort_key (\<lambda>e. - cle_step_order e) col_edges;
               expr_parts = map (\<lambda>e. (str ''['') @ type_value (cle_transformation_type e) @ (str ''] '')
                                        @ the (transformation_expression e))
                              (filter (\<lambda>e. truthy (transformation_expression e)) sorted_edges);
               combined_expr = (if expr_parts \<noteq> [] then Some (join arrow expr_parts) else None);
               target_field_urn = make_schema_field_urn cfg target_urn target_col
           in [\<lparr>upstreamType = (str ''FIELD_SET''), upstreams = upstream_fields,
                 downstreamType = (str ''FIELD''), downstreams = [target_field_urn],
                 transformOperation = combined_expr,
                 confidenceScore = py_min (map confidence_score col_edges)\<rparr>])
        else []))"

definition dataset_mcp :: "emitter_config \<Rightarrow> pystr \<times> ColumnLineageEdge list \<Rightarrow> (pystr \<times> UpstreamLineage) list" where
  "dataset_mcp cfg grp =
     (case grp of (target_ds, edges) \<Rightarrow>
       (let target_urn = build_dataset_urn cfg target_ds False;
            edges_by_col = group_by target_column edges;
            upstream_datasets = source_urn cfg ` set (concat (map snd edges_by_col));
            fine_grained = concat (map (column_fgl cfg target_urn) edges_by_col)
        in if upstream_datasets \<noteq> {} then
             [(target_urn, \<lparr>ul_upstreams = upstream_datasets,
                            fineGrainedLineages = (if fine_grained \<noteq> [] then Some fine_grained else None)\<rparr>)]
           else []))"

definition emit_dataset_lineage :: "emitter_config \<Rightarrow> ColumnLineageEdge list \<Rightarrow> (pystr \<times> UpstreamLineage) list" where
  "emit_dataset_lineage cfg lineage_edges =
     concat (map (dataset_mcp cfg) (group_by target_dataset lineage_edges))"


section \<open>Properties of the lineage edges and of their emission\<close>

lemma map_of_group_add:
  "map_of (group_add f d x) k = (if f x = k then Some (dict_get d k [] @ [x]) else map_of d k)"
  by (auto simp: group_add_def dict_init_def dict_get_def Let_def update_conv' split: option.splits)

lemma distinct_group_add: "distinct (map fst d) \<Longrightarrow> distinct (map fst (group_add f d x))"
  by (simp add: group_add_def dict_init_def Let_def distinct_update)

lemma group_by_snoc: "group_by f (xs @ [x]) = group_add f (group_by f xs) x"
  by (simp add: group_by_def)

lemma group_by_inv:
  "distinct (map fst (group_by f xs)) \<and>
   (\<forall>k. map_of (group_by f xs) k =
          (if filter (\<lambda>x. f x = k) xs = [] then None else Some (filter (\<lambda>x. f x = k) xs)))"
proof (induction xs rule: rev_induct)
  case Nil
  show ?case by (simp add: group_by_def)
next
  case (snoc x xs)
  then show ?case
    by (auto simp: group_by_snoc distinct_group_add map_of_group_add dict_get_def)
qed

lemma group_by_entry:
  assumes "(k, es) \<in> set (group_by f xs)"
  shows "es = filter (\<lambda>x. f x = k) xs \<and> es \<noteq> []"
proof -
  from group_by_inv[of f xs] have d: "distinct (map fst (group_by f xs))"
    and m: "map_of (group_by f xs) k =
          (if filter (\<lambda>x. f x = k) xs = [] then None else Some (filter (\<lambda>x. f x = k) xs))"
    by auto
  from d assms have "map_of (group_by f xs) k = Some es" by simp
  with m show ?thesis by (auto split: if_splits)
qed

lemma group_by_covers:
  assumes "x \<in> set xs"
  shows "(f x, filter (\<lambda>y. f y = f x) xs) \<in> set (group_by f xs)"
proof -
  from assms have "filter (\<lambda>y. f y = f x) xs \<noteq> []" by (auto simp: filter_empty_conv)
  with group_by_inv[of f xs]
  have "map_of (group_by f xs) (f x) = Some (filter (\<lambda>y. f y = f x) xs)" by auto
  then show ?thesis by (rule map_of_SomeD)
qed

lemma set_upstream_field_fold:
  "set (foldl (add_upstream_field cfg) acc edges) =
     set acc \<union> (\<lambda>e. make_schema_field_urn cfg (source_urn cfg e) (source_column e))
                 ` {e \<in> set edges. source_column e \<noteq> (str ''*'')}"
  by (induction edges arbitrary: acc) (auto simp: add_upstream_field_def Let_def)

lemma set_upstream_field_urns_of:
  "set (upstream_field_urns_of cfg edges) =
     (\<lambda>e. make_schema_field_urn cfg (source_urn cfg e) (source_column e))
       ` {e \<in> set edges. source_column e \<noteq> (str ''*'')}"
  by (simp add: upstream_field_urns_of_def set_upstream_field_fold)

lemma foldl_min: "foldl min (a::real) xs = Min (insert a (set xs))"
proof (induction xs arbitrary: a)
  case Nil
  show ?case by simp
next
  case (Cons x xs)
  have "Min (insert (min a x) (set xs)) = Min (insert a (insert x (set xs)))"
  proof (cases "xs = []")
    case True
    then show ?thesis by (simp add: min_def)
  next
    case False
    then show ?thesis by (simp add: Min_insert min.assoc)
  qed
  with Cons show ?case by simp
qed

lemma py_min_Min: "xs \<noteq> [] \<Longrightarrow> py_min xs = Min (set xs)"
  by (cases xs) (simp_all add: py_min_def foldl_min)


definition fgl_of_group :: "emitter_config \<Rightarrow> pystr \<times> ColumnLineageEdge list \<Rightarrow> FineGrainedLineage list" where
  "fgl_of_group cfg grp = snd (snd (job_io_group cfg ({}, {}, []) grp))"

lemma job_io_group_split:
  "job_io_group cfg (ins, outs, fgls) (k, es) =
     (ins \<union> source_urn cfg ` set es,
      insert (build_dataset_urn cfg (fst (rsplit_last_dot k)) False) outs,
      fgls @ fgl_of_group cfg (k, es))"
  by (simp add: job_io_group_def fgl_of_group_def Let_def)

lemma job_io_fold:
  "foldl (job_io_group cfg) (ins, outs, fgls) gs =
     (ins \<union> (\<Union>g \<in> set gs. source_urn cfg ` set (snd g)),
      outs \<union> (\<lambda>g. build_dataset_urn cfg (fst (rsplit_last_dot (fst g))) False) ` set gs,
      fgls @ concat (map (fgl_of_group cfg) gs))"
proof (induction gs arbitrary: ins outs fgls)
  case Nil
  show ?case by simp
next
  case (Cons g gs)
  obtain k es where g: "g = (k, es)" by (cases g)
  show ?case
    unfolding g by (simp add: job_io_group_split Cons.IH) blast
qed

lemma fgl_of_group_cases:
  assumes "fgl \<in> set (fgl_of_group cfg (k, es))"
  shows "upstreams fgl = upstream_field_urns_of cfg es
         \<and> confidenceScore fgl = (if es \<noteq> [] then py_min (map confidence_score es) else 1)
         \<and> downstreams fgl =
             [make_schema_field_urn cfg (build_dataset_urn cfg (fst (rsplit_last_dot k)) False)
                (snd (rsplit_last_dot k))]"
  using assms by (auto simp: fgl_of_group_def job_io_group_def Let_def split: if_splits)

lemma build_job_io_fgl:
  assumes "fgl \<in> set (snd (snd (build_job_io cfg lineage_edges)))"
  shows "\<exists>k es. es = filter (\<lambda>e. target_key_of e = k) lineage_edges \<and> es \<noteq> []
           \<and> upstreams fgl = upstream_field_urns_of cfg es
           \<and> confidenceScore fgl = py_min (map confidence_score es)
           \<and> downstreams fgl =
               [make_schema_field_urn cfg (build_dataset_urn cfg (fst (rsplit_last_dot k)) False)
                  (snd (rsplit_last_dot k))]"
proof -
  from assms obtain g where g: "g \<in> set (group_by target_key_of lineage_edges)"
    and f: "fgl \<in> set (fgl_of_group cfg g)"
    by (auto simp: build_job_io_def job_io_fold)
  obtain k es where ge: "g = (k, es)" by (cases g)
  from g ge have es: "es = filter (\<lambda>e. target_key_of e = k) lineage_edges" "es \<noteq> []"
    using group_by_entry[of k es target_key_of lineage_edges] by auto
  from fgl_of_group_cases[OF f[unfolded ge]] es show ?thesis by auto
qed

lemma build_job_io_inputs:
  assumes "e \<in> set lineage_edges"
  shows "source_urn cfg e \<in> fst (build_job_io cfg lineage_edges)"
proof -
  let ?g = "(target_key_of e, filter (\<lambda>y. target_key_of y = target_key_of e) lineage_edges)"
  have "?g \<in> set (group_by target_key_of lineage_edges)" using assms by (rule group_by_covers)
  moreover have "e \<in> set (snd ?g)" using assms by simp
  ultimately show ?thesis unfolding build_job_io_def job_io_fold by (simp only: fst_conv) blast
qed

lemma column_fgl_cases:
  assumes "fgl \<in> set (column_fgl cfg target_urn (c, es))"
  shows "upstreams fgl = upstream_field_urns_of cfg es
         \<and> confidenceScore fgl = py_min (map confidence_score es)
         \<and> downstreams fgl = [make_schema_field_urn cfg target_urn c]"
  using assms by (auto simp: column_fgl_def Let_def split: if_splits)

lemma emit_dataset_lineage_fgl:
  assumes m: "(urn, ul) \<in> set (emit_dataset_lineage cfg lineage_edges)"
    and l: "fineGrainedLineages ul = Some fgls"
    and f: "fgl \<in> set fgls"
  shows "\<exists>es. set es \<subseteq> set lineage_edges \<and> es \<noteq> []
           \<and> upstreams fgl = upstream_field_urns_of cfg es
           \<and> confidenceScore fgl = py_min (map confidence_score es)"
proof -
  from m obtain g where g: "g \<in> set (group_by target_dataset lineage_edges)"
    and d: "(urn, ul) \<in> set (dataset_mcp cfg g)"
    by (auto simp: emit_dataset_lineage_def)
  obtain t edges where ge: "g = (t, edges)" by (cases g)
  from g ge have edges: "edges = filter (\<lambda>e. target_dataset e = t) lineage_edges"
    using group_by_entry[of t edges target_dataset lineage_edges] by auto
  from d l f ge obtain cg where cg: "cg \<in> set (group_by target_column edges)"
    and cf: "fgl \<in> set (column_fgl cfg (build_dataset_urn cfg t False) cg)"
    by (auto simp: dataset_mcp_def Let_def split: if_splits)
  obtain c es where ce: "cg = (c, es)" by (cases cg)
  from cg ce have es: "es = filter (\<lambda>e. target_column e = c) edges" "es \<noteq> []"
    using group_by_entry[of c es target_column edges] by auto
  have sub: "set es \<subseteq> set lineage_edges" using es(1) edges by auto
  from column_fgl_cases[OF cf[unfolded ce]] es(2) sub show ?thesis by blast
qed

lemma emit_dataset_lineage_upstreams:
  assumes "e \<in> set lineage_edges"
  shows "\<exists>ul. (build_dataset_urn cfg (target_dataset e) False, ul) \<in> set (emit_dataset_lineage cfg lineage_edges)
              \<and> source_urn cfg e \<in> ul_upstreams ul"
proof -
  let ?edges = "filter (\<lambda>y. target_dataset y = target_dataset e) lineage_edges"
  let ?g = "(target_dataset e, ?edges)"
  have g: "?g \<in> set (group_by target_dataset lineage_edges)" using assms by (rule group_by_covers)
  have ein: "e \<in> set ?edges" using assms by simp
  let ?es = "filter (\<lambda>y. target_column y = target_column e) ?edges"
  have cg: "(target_column e, ?es) \<in> set (group_by target_column ?edges)"
    using ein by (rule group_by_covers)
  have "e \<in> set ?es" using ein by simp
  with cg have "e \<in> set (concat (map snd (group_by target_column ?edges)))"
    by (auto intro!: bexI[of _ "(target_column e, ?es)"])
  then have u: "source_urn cfg e \<in> source_urn cfg ` set (concat (map snd (group_by target_column ?edges)))"
    by (rule imageI)
  then have ne: "source_urn cfg ` set (concat (map snd (group_by target_column ?edges))) \<noteq> {}"
    by (metis empty_iff)
  let ?ul = "\<lparr>ul_upstreams = source_urn cfg ` set (concat (map snd (group_by target_column ?edges))),
               fineGrainedLineages =
                 (if concat (map (column_fgl cfg (build_dataset_urn cfg (target_dataset e) False))
                              (group_by target_column ?edges)) \<noteq> []
                  then Some (concat (map (column_fgl cfg (build_dataset_urn cfg (target_dataset e) False))
                              (group_by target_column ?edges)))
                  else None)\<rparr>"
  have "dataset_mcp cfg ?g = [(build_dataset_urn cfg (target_dataset e) False, ?ul)]"
    using ne by (simp add: dataset_mcp_def Let_def)
  then have "(build_dataset_urn cfg (target_dataset e) False, ?ul) \<in> set (dataset_mcp cfg ?g)"
    by simp
  moreover have "source_urn cfg e \<in> ul_upstreams ?ul" using u by simp
  ultimately have "\<exists>ul. (build_dataset_urn cfg (target_dataset e) False, ul) \<in> set (dataset_mcp cfg ?g)
              \<and> source_urn cfg e \<in> ul_upstreams ul"
    by blast
  with g show ?thesis unfolding emit_dataset_lineage_def by (auto intro!: bexI[of _ ?g])
qed


definition ex_field :: "pystr \<Rightarrow> pystr \<times> FieldInfo" where
  "ex_field n = (n, \<lparr>fi_name = n, fi_datatype = (str ''varchar2''), fi_port_type = None, fi_expression = None\<rparr>)"

definition ex_source :: "pystr \<Rightarrow> pystr list \<Rightarrow> pystr \<times> SourceDefinition" where
  "ex_source n fs = (n, \<lparr>sd_name = n, sd_owner_name = None, sd_fields = map ex_field fs\<rparr>)"

definition ex_sql_folder :: FolderInfo where
  "ex_sql_folder =
     \<lparr>fo_name = (str ''F''),
      sources = [ex_source (str ''CUSTOMERS'') [(str ''CUSTOMER_ID''), (str ''NAME'')],
                 ex_source (str ''ORDERS'') [(str ''ORDER_ID''), (str ''CUSTOMER_ID'')]],
      targets = [], fo_transformations = []\<rparr>"

definition ex_sql :: pystr where
  "ex_sql = (str ''SELECT c.CUSTOMER_ID, COUNT(o.ORDER_ID) AS ORDER_COUNT FROM CUSTOMERS c LEFT JOIN ORDERS o ON c.CUSTOMER_ID = o.CUSTOMER_ID'')"

definition ex_ast :: select_ast where
  "ex_ast =
     \<lparr>ast_tables = [((str ''CUSTOMERS''), (str ''c'')), ((str ''ORDERS''), (str ''o''))],
      ast_expressions =
        [\<lparr>se_kind = ColumnExpr (str ''CUSTOMER_ID''), se_columns = [((str ''CUSTOMER_ID''), (str ''c''))],
          se_sql = (str ''c.CUSTOMER_ID'')\<rparr>,
         \<lparr>se_kind = AliasExpr (str ''ORDER_COUNT''), se_columns = [((str ''ORDER_ID''), (str ''o''))],
          se_sql = (str ''COUNT(o.ORDER_ID) AS ORDER_COUNT'')\<rparr>]\<rparr>"

definition ex_env :: sqlglot_env where
  "ex_env =
     \<lparr>sql_parsing_available = True,
      parse_one = (\<lambda>sql. if sql = ex_sql then Select ex_ast else Raises),
      unicode = ascii_db\<rparr>"

definition ex_step :: TransformationStep where
  "ex_step = \<lparr>step_order = 2, instance_name = (str ''SQ''), ts_transformation_type = SOURCE_QUALIFIER,
              input_fields = [], output_fields = [((str ''SQ''), (str ''ORDER_COUNT''))], expression = None\<rparr>"

definition ex_cfg :: emitter_config where
  "ex_cfg =
     \<lparr>platform = (str ''oracle''), platform_instance = None, oracle_platform_instance = None, env = (str ''PROD''),
      make_dataset_urn = (\<lambda>p n e. (str ''urn:li:dataset:(urn:li:dataPlatform:'') @ p @ (str '','') @ n @ (str '','') @ e @ (str '')'')),
      make_schema_field_urn = (\<lambda>parent fld. (str ''urn:li:schemaField:('') @ parent @ (str '','') @ fld @ (str '')''))\<rparr>"

definition ex_edge :: "pystr \<Rightarrow> pystr \<Rightarrow> real \<Rightarrow> ColumnLineageEdge" where
  "ex_edge ds col c =
     \<lparr>source_dataset = ds, source_column = col, target_dataset = (str ''DW''), target_column = (str ''TOTAL''),
      cle_transformation_type = EXPRESSION, transformation_expression = None,
      confidence_score = c, cle_step_order = 1\<rparr>"

lemma ex_sql_no_call: "detect_stored_procedure_call ascii_db ex_sql = None"
  by code_simp

lemma ex_sql_lineage: "parse_sql_lineage ex_env ex_sql_folder ex_sql (str ''T'') (str ''ORDER_COUNT'') ex_step =
        [\<lparr>source_dataset = (str ''ORDERS''), source_column = (str ''ORDER_ID''), target_dataset = (str ''T''),
          target_column = (str ''ORDER_COUNT''), cle_transformation_type = SOURCE_QUALIFIER,
          transformation_expression = Some (str ''COUNT(o.ORDER_ID) AS ORDER_COUNT''),
          confidence_score = 95 / 100, cle_step_order = 2\<rparr>]"
  using ex_sql_no_call
  by (simp add: parse_sql_lineage_def parse_sql_def parse_with_sqlglot_def ex_env_def
        ex_ast_def ex_sql_folder_def ex_source_def ex_field_def folder_source_tables_def
        build_source_refs_def add_source_ref_def match_known_table_def select_results_def
        output_col_of_def upstream_cols_of_def resolve_table_def sql_result_edges_def
        build_source_dataset_name_def ex_step_def Let_def ascii_db_def ascii_upper_def str_def cp_def
        ends_with_def)

lemma ex_job_io: "build_job_io ex_cfg [ex_edge (str ''PKG.LOAD'') (str ''*'') 1, ex_edge (str ''SRC'') (str ''AMOUNT'') (95 / 100), ex_edge (str ''SRC'') (str ''QTY'') 1] =
  ({(str ''urn:li:dataset:(urn:li:dataPlatform:oracle,PKG.LOAD,PROD)''),
    (str ''urn:li:dataset:(urn:li:dataPlatform:oracle,SRC,PROD)'')},
   {(str ''urn:li:dataset:(urn:li:dataPlatform:oracle,DW,PROD)'')},
   [\<lparr>upstreamType = (str ''FIELD_SET''),
     upstreams = [(str ''urn:li:schemaField:(urn:li:dataset:(urn:li:dataPlatform:oracle,SRC,PROD),AMOUNT)''),
                  (str ''urn:li:schemaField:(urn:li:dataset:(urn:li:dataPlatform:oracle,SRC,PROD),QTY)'')],
     downstreamType = (str ''FIELD''),
     downstreams = [(str ''urn:li:schemaField:(urn:li:dataset:(urn:li:dataPlatform:oracle,DW,PROD),TOTAL)'')],
     transformOperation = None, confidenceScore = 95 / 100\<rparr>])"
  by (simp add: build_job_io_def group_by_def group_add_def dict_init_def dict_get_def job_io_group_def
        upstream_field_urns_of_def add_upstream_field_def source_urn_def build_dataset_urn_def ex_cfg_def
        ex_edge_def target_key_of_def rsplit_last_dot_def py_min_def truthy_def Let_def insert_commute
        str_def cp_def)


lemma proc_call_edge_fields:
  "confidence_score (proc_call_edge verb schema proc_name target_table target_col step) = 1"
  "source_column (proc_call_edge verb schema proc_name target_table target_col step) = (str ''*'')"
  by (simp_all add: proc_call_edge_def)

lemma parse_sql_lineage_call:
  assumes "detect_stored_procedure_call (unicode sq) sql = Some (schema, proc_name)"
  shows "parse_sql_lineage sq folder sql target_table target_col step =
           [proc_call_edge (str ''CALL'') schema proc_name target_table target_col step]"
  using assms by (simp add: parse_sql_lineage_def)

lemma sql_result_edges_confidence:
  "e \<in> set (sql_result_edges db folder target_table target_col step res) \<Longrightarrow>
     confidence_score e = 95 / 100 \<and> cle_transformation_type e = SOURCE_QUALIFIER"
  by (cases res) (auto simp: sql_result_edges_def split: if_splits option.splits)

lemma parse_sql_lineage_confidence:
  assumes "e \<in> set (parse_sql_lineage sq folder sql target_table target_col step)"
  shows "(detect_stored_procedure_call (unicode sq) sql \<noteq> None \<and> confidence_score e = 1 \<and> source_column e = (str ''*''))
         \<or> (detect_stored_procedure_call (unicode sq) sql = None \<and> confidence_score e = 95 / 100
              \<and> cle_transformation_type e = SOURCE_QUALIFIER)"
proof (cases "detect_stored_procedure_call (unicode sq) sql")
  case None
  with assms show ?thesis
    by (auto simp: parse_sql_lineage_def dest: sql_result_edges_confidence)
next
  case (Some p)
  with assms show ?thesis
    by (cases p) (auto simp: parse_sql_lineage_def proc_call_edge_fields)
qed

lemma stored_proc_confidence:
  "e \<in> set (build_stored_proc_lineage transf target_table target_col step) \<Longrightarrow>
     confidence_score e = 1 \<and> source_column e = (str ''*'')"
  by (auto simp: build_stored_proc_lineage_def proc_call_edge_fields split: option.splits if_splits)

lemma source_definition_confidence:
  "e \<in> set (source_definition_edges folder inst target_def target_col step) \<Longrightarrow> confidence_score e = 1"
  by (auto simp: source_definition_edges_def connector_edge_def split: option.splits)

lemma standard_confidence:
  "e \<in> set (standard_edges folder mapping target_def target_col step) \<Longrightarrow> confidence_score e = 1"
  by (auto simp: standard_edges_def connector_edge_def split: option.splits)

lemma step_edges_confidence:
  assumes "e \<in> set (step_edges sq folder mapping target_table target_col target_def step)"
  shows "confidence_score e = 1
         \<or> (confidence_score e = 95 / 100 \<and> cle_transformation_type e = SOURCE_QUALIFIER)"
proof (cases "map_of (instances mapping) (instance_name step)")
  case None
  with assms show ?thesis by (simp add: step_edges_def)
next
  case (Some inst)
  with assms show ?thesis
    using parse_sql_lineage_confidence stored_proc_confidence source_definition_confidence
      standard_confidence
    by (fastforce simp: step_edges_def Let_def split: if_splits)
qed

lemma column_lineage_edges_confidence:
  assumes "e \<in> set (build_column_lineage_edges sq folder mapping)"
  shows "confidence_score e = 1
         \<or> (confidence_score e = 95 / 100 \<and> cle_transformation_type e = SOURCE_QUALIFIER)"
proof -
  from assms obtain kc where "e \<in> set (chain_edges sq folder mapping kc)"
    by (auto simp: build_column_lineage_edges_def)
  then obtain target_def step where
    "e \<in> set (step_edges sq folder mapping (fst (split_first_dot (fst kc)))
                 (snd (split_first_dot (fst kc))) target_def step)"
    by (auto simp: chain_edges_def Let_def split: option.splits)
  then show ?thesis by (rule step_edges_confidence)
qed



fun ascii_item :: "rx_item \<Rightarrow> bool" where
  "ascii_item (Lit c) = (c < 128)"
| "ascii_item (Many cls n cap) = True"
| "ascii_item (Opt items) = list_all ascii_item items"

lemma ascii_tables_ascii_db: "ascii_tables ascii_db"
  by (simp add: ascii_tables_def ascii_db_def)

lemma ascii_tables_fold:
  "ascii_tables db \<Longrightarrow> c < 128 \<Longrightarrow> x < 128 \<Longrightarrow> re_fold_eq db c x = (ascii_upper c = ascii_upper x)"
  unfolding ascii_tables_def by blast

lemma ascii_tables_upper:
  "ascii_tables db \<Longrightarrow> is_ascii s \<Longrightarrow> str_upper db s = map ascii_upper s"
  unfolding ascii_tables_def by blast

lemma in_class_ascii:
  "ascii_tables db \<Longrightarrow> c < 128 \<Longrightarrow> in_class db cls c = in_class ascii_db cls c"
  by (cases cls) (simp_all add: ascii_tables_def ascii_db_def)

lemma is_ascii_drop: "is_ascii s \<Longrightarrow> is_ascii (drop k s)"
  by (auto simp: is_ascii_def list_all_iff dest: in_set_dropD)

lemma rx_match_ascii:
  "ascii_tables db \<Longrightarrow> list_all ascii_item p \<Longrightarrow> is_ascii s \<Longrightarrow>
     rx_match db p s g = rx_match ascii_db p s g"
proof (induction db p s g rule: rx_match.induct)
  case (1 db s g)
  show ?case by simp
next
  case (2 db c r s g)
  note t = 2(2)
  show ?case
  proof (cases s)
    case Nil
    then show ?thesis by simp
  next
    case (Cons x xs)
    from 2(3) have c: "c < 128" and r: "list_all ascii_item r" by simp_all
    from 2(4) Cons have x: "x < 128" and xs: "is_ascii xs" by (simp_all add: is_ascii_def)
    from t c x have f: "re_fold_eq db c x = re_fold_eq ascii_db c x"
      by (simp add: ascii_tables_fold ascii_db_def)
    show ?thesis
    proof (cases "re_fold_eq db c x")
      case True
      with f Cons 2(1)[OF Cons True t r xs] show ?thesis by simp
    next
      case False
      with f Cons show ?thesis by simp
    qed
  qed
next
  case (3 db cls n cap r s g)
  note t = 3(2)
  from 3(3) have r: "list_all ascii_item r" by simp
  have tw: "takeWhile (in_class db cls) s = takeWhile (in_class ascii_db cls) s"
  proof (rule takeWhile_cong[OF refl])
    fix x assume "x \<in> set s"
    with 3(4) have "x < 128" by (simp add: is_ascii_def list_all_iff)
    with t show "in_class db cls x = in_class ascii_db cls x" by (rule in_class_ascii)
  qed
  have m: "map (\<lambda>k. rx_match db r (drop k s) (set_group cap (take k s) g))
            (rev [n ..< Suc (length (takeWhile (in_class db cls) s))])
        = map (\<lambda>k. rx_match ascii_db r (drop k s) (set_group cap (take k s) g))
            (rev [n ..< Suc (length (takeWhile (in_class db cls) s))])"
  proof (rule map_cong[OF refl])
    fix k assume k: "k \<in> set (rev [n ..< Suc (length (takeWhile (in_class db cls) s))])"
    show "rx_match db r (drop k s) (set_group cap (take k s) g)
          = rx_match ascii_db r (drop k s) (set_group cap (take k s) g)"
      by (rule 3(1)[OF k t r is_ascii_drop[OF 3(4)]])
  qed
  have "rx_match db (Many cls n cap # r) s g
          = first_some (map (\<lambda>k. rx_match db r (drop k s) (set_group cap (take k s) g))
              (rev [n ..< Suc (length (takeWhile (in_class db cls) s))]))"
    by (simp only: rx_match.simps)
  also have "\<dots> = first_some (map (\<lambda>k. rx_match ascii_db r (drop k s) (set_group cap (take k s) g))
              (rev [n ..< Suc (length (takeWhile (in_class db cls) s))]))"
    by (simp only: m)
  also have "\<dots> = first_some (map (\<lambda>k. rx_match ascii_db r (drop k s) (set_group cap (take k s) g))
              (rev [n ..< Suc (length (takeWhile (in_class ascii_db cls) s))]))"
    by (simp only: tw)
  also have "\<dots> = rx_match ascii_db (Many cls n cap # r) s g"
    by (simp only: rx_match.simps)
  finally show ?case .
next
  case (4 db items r s g)
  note t = 4(3)
  from 4(4) have ir: "list_all ascii_item (items @ r)" and r: "list_all ascii_item r" by simp_all
  have a: "rx_match db (items @ r) s g = rx_match ascii_db (items @ r) s g"
    by (rule 4(1)[OF t ir 4(5)])
  show ?case
  proof (cases "rx_match db (items @ r) s g")
    case None
    with a have b: "rx_match ascii_db (items @ r) s g = None" by simp
    from None b 4(2)[OF None t r 4(5)] show ?thesis by simp
  next
    case (Some g')
    with a have b: "rx_match ascii_db (items @ r) s g = Some g'" by simp
    from Some b show ?thesis by simp
  qed
qed

lemma re_search_ascii:
  assumes "ascii_tables db" "list_all ascii_item p"
  shows "is_ascii s \<Longrightarrow> re_search db p s = re_search ascii_db p s"
proof (induction s)
  case Nil
  show ?case by (simp add: rx_match_ascii[OF assms] is_ascii_def)
next
  case (Cons x xs)
  have a: "rx_match db p (x # xs) [] = rx_match ascii_db p (x # xs) []"
    by (rule rx_match_ascii[OF assms Cons.prems])
  have "is_ascii xs" using Cons.prems by (simp add: is_ascii_def)
  then have "re_search db p xs = re_search ascii_db p xs" by (rule Cons.IH)
  with a show ?case by (simp split: option.splits)
qed

lemma re_search_positions:
  "re_search db p s = first_some (map (\<lambda>i. rx_match db p (drop i s) []) [0 ..< Suc (length s)])"
proof (induction s)
  case Nil
  show ?case by (cases "rx_match db p [] []") simp_all
next
  case (Cons x xs)
  have u: "[0 ..< Suc (length (x # xs))] = 0 # map Suc [0 ..< Suc (length xs)]"
    by (subst upt_conv_Cons) (simp_all add: map_Suc_upt del: upt_Suc)
  show ?case
    by (cases "rx_match db p (x # xs) []") (simp_all only: u re_search.simps list.map drop_0 first_some.simps option.case map_map comp_def drop_Suc_Cons Cons.IH)
qed

lemma detect_loop_ascii:
  assumes "ascii_tables db" "is_ascii s"
  shows "list_all (list_all ascii_item) ps \<Longrightarrow> detect_loop db ps s = detect_loop ascii_db ps s"
  by (induction ps) (simp_all add: re_search_ascii[OF assms(1) _ assms(2)] split: option.splits)

lemma call_patterns_ascii: "list_all (list_all ascii_item) call_patterns"
  by (simp add: call_patterns_def qualified_name_def lits_def str_def cp_def)

lemma detect_ascii:
  assumes "ascii_tables db" "is_ascii s"
  shows "detect_stored_procedure_call db s = detect_stored_procedure_call ascii_db s"
  unfolding detect_stored_procedure_call_def
  by (rule detect_loop_ascii[OF assms call_patterns_ascii])

lemma detect_loop_first_match:
  "detect_loop db ps sql = Some r \<longleftrightarrow>
     (\<exists>i g. i < length ps \<and> re_search db (ps ! i) sql = Some g \<and> r = match_groups g
          \<and> (\<forall>j. j < i \<longrightarrow> re_search db (ps ! j) sql = None))"
proof (induction ps)
  case Nil
  show ?case by simp
next
  case (Cons p ps)
  show ?case
  proof (cases "re_search db p sql")
    case (Some g)
    have "(\<exists>i g'. i < length (p # ps) \<and> re_search db ((p # ps) ! i) sql = Some g' \<and> r = match_groups g'
          \<and> (\<forall>j. j < i \<longrightarrow> re_search db ((p # ps) ! j) sql = None)) \<longleftrightarrow> r = match_groups g"
    proof
      assume "\<exists>i g'. i < length (p # ps) \<and> re_search db ((p # ps) ! i) sql = Some g' \<and> r = match_groups g'
          \<and> (\<forall>j. j < i \<longrightarrow> re_search db ((p # ps) ! j) sql = None)"
      then obtain i g' where i: "re_search db ((p # ps) ! i) sql = Some g'" "r = match_groups g'"
        "\<forall>j. j < i \<longrightarrow> re_search db ((p # ps) ! j) sql = None" by blast
      have "i = 0"
      proof (rule ccontr)
        assume "i \<noteq> 0"
        then have "0 < i" by simp
        with i(3) have "re_search db ((p # ps) ! 0) sql = None" by blast
        with Some show False by simp
      qed
      with i Some show "r = match_groups g" by simp
    next
      assume "r = match_groups g"
      with Some show "\<exists>i g'. i < length (p # ps) \<and> re_search db ((p # ps) ! i) sql = Some g' \<and> r = match_groups g'
          \<and> (\<forall>j. j < i \<longrightarrow> re_search db ((p # ps) ! j) sql = None)"
        by (intro exI[of _ 0] exI[of _ g]) simp
    qed
    with Some show ?thesis by auto
  next
    case None
    have "(\<exists>i g. i < length (p # ps) \<and> re_search db ((p # ps) ! i) sql = Some g \<and> r = match_groups g
          \<and> (\<forall>j. j < i \<longrightarrow> re_search db ((p # ps) ! j) sql = None))
         \<longleftrightarrow> (\<exists>i g. i < length ps \<and> re_search db (ps ! i) sql = Some g \<and> r = match_groups g
          \<and> (\<forall>j. j < i \<longrightarrow> re_search db (ps ! j) sql = None))" (is "?L \<longleftrightarrow> ?R")
    proof
      assume ?L
      then obtain i g where i: "i < length (p # ps)" "re_search db ((p # ps) ! i) sql = Some g"
        "r = match_groups g" "\<forall>j. j < i \<longrightarrow> re_search db ((p # ps) ! j) sql = None" by blast
      from i(2) None obtain i' where i': "i = Suc i'" by (cases i) simp_all
      have "\<forall>j. j < i' \<longrightarrow> re_search db (ps ! j) sql = None"
      proof (intro allI impI)
        fix j assume "j < i'"
        then have "Suc j < i" using i' by simp
        with i(4) have "re_search db ((p # ps) ! Suc j) sql = None" by blast
        then show "re_search db (ps ! j) sql = None" by simp
      qed
      with i i' show ?R by (intro exI[of _ i'] exI[of _ g]) simp
    next
      assume ?R
      then obtain i g where i: "i < length ps" "re_search db (ps ! i) sql = Some g"
        "r = match_groups g" "\<forall>j. j < i \<longrightarrow> re_search db (ps ! j) sql = None" by blast
      have "\<forall>j. j < Suc i \<longrightarrow> re_search db ((p # ps) ! j) sql = None"
      proof (intro allI impI)
        fix j assume j: "j < Suc i"
        show "re_search db ((p # ps) ! j) sql = None"
        proof (cases j)
          case 0
          with None show ?thesis by simp
        next
          case (Suc j')
          with j have "j' < i" by simp
          with i(4) Suc show ?thesis by simp
        qed
      qed
      with i show ?L by (intro exI[of _ "Suc i"] exI[of _ g]) simp
    qed
    with None Cons.IH show ?thesis by simp
  qed
qed

lemma detect_first_match:
  "detect_stored_procedure_call db sql = Some r \<longleftrightarrow>
     (\<exists>i g. i < length call_patterns \<and> re_search db (call_patterns ! i) sql = Some g
          \<and> r = match_groups g
          \<and> (\<forall>j. j < i \<longrightarrow> re_search db (call_patterns ! j) sql = None))"
  unfolding detect_stored_procedure_call_def by (rule detect_loop_first_match)

lemma detect_examples_ascii:
  "detect_stored_procedure_call ascii_db (str ''BEGIN PKG.GET_KEY(:1,:2); END;'') = Some (str ''PKG'', str ''GET_KEY'')"
  "detect_stored_procedure_call ascii_db (str ''EXECUTE P1; CALL P2(1)'') = Some ([], str ''P2'')"
  "detect_stored_procedure_call ascii_db (str ''BEGIN P3(1); EXECUTE P4'') = Some ([], str ''P4'')"
  "detect_stored_procedure_call ascii_db (str ''{call PKG.P5(?)}'') = Some (str ''PKG'', str ''P5'')"
  "detect_stored_procedure_call ascii_db (str ''SELECT A FROM B'') = None"
  by code_simp+

lemma examples_are_ascii:
  "is_ascii (str ''BEGIN PKG.GET_KEY(:1,:2); END;'')"
  "is_ascii (str ''EXECUTE P1; CALL P2(1)'')"
  "is_ascii (str ''BEGIN P3(1); EXECUTE P4'')"
  "is_ascii (str ''{call PKG.P5(?)}'')"
  "is_ascii (str ''SELECT A FROM B'')"
  by code_simp+

lemma detect_no_break_space:
  "detect_stored_procedure_call (ascii_db\<lparr>re_space := (\<lambda>c. ascii_space c \<or> c = 160)\<rparr>)
     (str ''CALL'' @ [160] @ str ''P(1)'') = Some ([], str ''P'')"
  by code_simp

text \<open>
  C7: the four call patterns are tried in the fixed order CALL, EXECUTE, BEGIN, ODBC
  \<open>{call}\<close>, and the result is that of the first pattern in this order that matches
  anywhere in the text: with the ASCII part of the Unicode tables as Python has it,
  \<open>BEGIN PKG.GET_KEY(:1,:2); END;\<close> gives \<open>(PKG, GET_KEY)\<close>, a CALL later in the
  text wins over an EXECUTE before it, and an EXECUTE later in the text wins over a BEGIN
  before it. Whatever the tables, when the embedded SQL matches a call pattern
  \<open>_parse_sql_lineage\<close> returns exactly one edge, with source column \<open>*\<close> and
  confidence 1.0, and the SQL parser has no part in the result.
\<close>

theorem C7_procedure_call_detection:
  assumes "ascii_tables (unicode sq)"
  shows "detect_stored_procedure_call (unicode sq) (str ''BEGIN PKG.GET_KEY(:1,:2); END;'')
           = Some (str ''PKG'', str ''GET_KEY'')
         \<and> detect_stored_procedure_call (unicode sq) (str ''EXECUTE P1; CALL P2(1)'') = Some ([], str ''P2'')
         \<and> detect_stored_procedure_call (unicode sq) (str ''BEGIN P3(1); EXECUTE P4'') = Some ([], str ''P4'')
         \<and> detect_stored_procedure_call (unicode sq) (str ''{call PKG.P5(?)}'') = Some (str ''PKG'', str ''P5'')
         \<and> detect_stored_procedure_call (unicode sq) (str ''SELECT A FROM B'') = None
         \<and> length call_patterns = 4
         \<and> (detect_stored_procedure_call (unicode sq) sql = Some r \<longleftrightarrow>
              (\<exists>i g. i < length call_patterns \<and> re_search (unicode sq) (call_patterns ! i) sql = Some g
                   \<and> r = match_groups g
                   \<and> (\<forall>j. j < i \<longrightarrow> re_search (unicode sq) (call_patterns ! j) sql = None)))
         \<and> (detect_stored_procedure_call (unicode sq) sql = Some (schema, proc_name) \<longrightarrow>
              parse_sql_lineage sq folder sql target_table target_col step =
                [\<lparr>source_dataset = (if schema \<noteq> [] then schema @ str ''.'' @ proc_name else proc_name),
                  source_column = str ''*'',
                  target_dataset = target_table,
                  target_column = target_col,
                  cle_transformation_type = STORED_PROCEDURE,
                  transformation_expression =
                    Some (if schema \<noteq> [] then str ''CALL'' @ str '' '' @ schema @ str ''.'' @ proc_name
                          else str ''CALL'' @ str '' '' @ proc_name),
                  confidence_score = 1,
                  cle_step_order = step_order step\<rparr>])"
proof -
  note d = detect_ascii[OF assms]
  have e1: "detect_stored_procedure_call (unicode sq) (str ''BEGIN PKG.GET_KEY(:1,:2); END;'')
           = Some (str ''PKG'', str ''GET_KEY'')"
    by (simp only: d[OF examples_are_ascii(1)] detect_examples_ascii(1))
  have e2: "detect_stored_procedure_call (unicode sq) (str ''EXECUTE P1; CALL P2(1)'') = Some ([], str ''P2'')"
    by (simp only: d[OF examples_are_ascii(2)] detect_examples_ascii(2))
  have e3: "detect_stored_procedure_call (unicode sq) (str ''BEGIN P3(1); EXECUTE P4'') = Some ([], str ''P4'')"
    by (simp only: d[OF examples_are_ascii(3)] detect_examples_ascii(3))
  have e4: "detect_stored_procedure_call (unicode sq) (str ''{call PKG.P5(?)}'') = Some (str ''PKG'', str ''P5'')"
    by (simp only: d[OF examples_are_ascii(4)] detect_examples_ascii(4))
  have e5: "detect_stored_procedure_call (unicode sq) (str ''SELECT A FROM B'') = None"
    by (simp only: d[OF examples_are_ascii(5)] detect_examples_ascii(5))
  have l: "length call_patterns = 4" by (simp add: call_patterns_def)
  have f: "detect_stored_procedure_call (unicode sq) sql = Some r \<longleftrightarrow>
              (\<exists>i g. i < length call_patterns \<and> re_search (unicode sq) (call_patterns ! i) sql = Some g
                   \<and> r = match_groups g
                   \<and> (\<forall>j. j < i \<longrightarrow> re_search (unicode sq) (call_patterns ! j) sql = None))"
    by (rule detect_first_match)
  have p: "detect_stored_procedure_call (unicode sq) sql = Some (schema, proc_name) \<longrightarrow>
              parse_sql_lineage sq folder sql target_table target_col step =
                [\<lparr>source_dataset = (if schema \<noteq> [] then schema @ str ''.'' @ proc_name else proc_name),
                  source_column = str ''*'',
                  target_dataset = target_table,
                  target_column = target_col,
                  cle_transformation_type = STORED_PROCEDURE,
                  transformation_expression =
                    Some (if schema \<noteq> [] then str ''CALL'' @ str '' '' @ schema @ str ''.'' @ proc_name
                          else str ''CALL'' @ str '' '' @ proc_name),
                  confidence_score = 1,
                  cle_step_order = step_order step\<rparr>]"
    by (simp add: parse_sql_lineage_call proc_call_edge_def)
  show ?thesis
    by (rule conjI[OF e1 conjI[OF e2 conjI[OF e3 conjI[OF e4 conjI[OF e5 conjI[OF l conjI[OF f p]]]]]]])
qed

theorem C7_procedure_call_detection_witness:
  "ascii_tables (unicode ex_env)
   \<and> detect_stored_procedure_call (unicode ex_env) (str ''BEGIN PKG.GET_KEY(:1,:2); END;'')
       = Some (str ''PKG'', str ''GET_KEY'')
   \<and> parse_sql_lineage ex_env ex_sql_folder (str ''BEGIN PKG.GET_KEY(:1,:2); END;'') (str ''DW'') (str ''KEY'') ex_step =
     [\<lparr>source_dataset = str ''PKG'' @ str ''.'' @ str ''GET_KEY'', source_column = str ''*'',
       target_dataset = str ''DW'', target_column = str ''KEY'',
       cle_transformation_type = STORED_PROCEDURE,
       transformation_expression = Some (str ''CALL'' @ str '' '' @ str ''PKG'' @ str ''.'' @ str ''GET_KEY''),
       confidence_score = 1, cle_step_order = 2\<rparr>]"
proof -
  have a: "ascii_tables (unicode ex_env)" by (simp add: ex_env_def ascii_tables_ascii_db)
  note T = C7_procedure_call_detection[OF a,
             where sql = "str ''BEGIN PKG.GET_KEY(:1,:2); END;''" and r = "(str ''PKG'', str ''GET_KEY'')"
               and schema = "str ''PKG''" and proc_name = "str ''GET_KEY''" and folder = ex_sql_folder
               and target_table = "str ''DW''" and target_col = "str ''KEY''" and step = ex_step]
  from T have d: "detect_stored_procedure_call (unicode ex_env) (str ''BEGIN PKG.GET_KEY(:1,:2); END;'')
       = Some (str ''PKG'', str ''GET_KEY'')"
    by (elim conjE)
  have ne: "str ''PKG'' \<noteq> []" by (simp add: str_def)
  from T have "detect_stored_procedure_call (unicode ex_env) (str ''BEGIN PKG.GET_KEY(:1,:2); END;'')
       = Some (str ''PKG'', str ''GET_KEY'') \<longrightarrow>
     parse_sql_lineage ex_env ex_sql_folder (str ''BEGIN PKG.GET_KEY(:1,:2); END;'') (str ''DW'') (str ''KEY'') ex_step =
       [\<lparr>source_dataset = (if str ''PKG'' \<noteq> [] then str ''PKG'' @ str ''.'' @ str ''GET_KEY'' else str ''GET_KEY''),
         source_column = str ''*'',
         target_dataset = str ''DW'',
         target_column = str ''KEY'',
         cle_transformation_type = STORED_PROCEDURE,
         transformation_expression =
           Some (if str ''PKG'' \<noteq> [] then str ''CALL'' @ str '' '' @ str ''PKG'' @ str ''.'' @ str ''GET_KEY''
                 else str ''CALL'' @ str '' '' @ str ''GET_KEY''),
         confidence_score = 1,
         cle_step_order = step_order ex_step\<rparr>]"
    by (elim conjE)
  with d ne have p: "parse_sql_lineage ex_env ex_sql_folder (str ''BEGIN PKG.GET_KEY(:1,:2); END;'') (str ''DW'') (str ''KEY'') ex_step =
     [\<lparr>source_dataset = str ''PKG'' @ str ''.'' @ str ''GET_KEY'', source_column = str ''*'',
       target_dataset = str ''DW'', target_column = str ''KEY'',
       cle_transformation_type = STORED_PROCEDURE,
       transformation_expression = Some (str ''CALL'' @ str '' '' @ str ''PKG'' @ str ''.'' @ str ''GET_KEY''),
       confidence_score = 1, cle_step_order = 2\<rparr>]"
    by (simp add: ex_step_def)
  from a d p show ?thesis by (intro conjI)
qed

text \<open>
  C4: edges built from connectors (the Source Definition branch and the standard branch)
  and edges built for a stored-procedure call (the Stored Procedure branch, and embedded
  SQL that is a call) have confidence 1.0; edges built from parsed SQL projections have
  confidence 0.95; every edge of \<open>build_column_lineage_edges\<close> is of one of these
  kinds; and the confidence of a fine-grained lineage built by \<open>_build_job_io\<close> is the
  minimum of the confidences of the edges grouped under its target column.
\<close>

theorem C4_confidence:
  "(\<forall>e \<in> set (source_definition_edges folder inst target_def target_col step). confidence_score e = 1)
   \<and> (\<forall>e \<in> set (standard_edges folder mapping target_def target_col step). confidence_score e = 1)
   \<and> (\<forall>e \<in> set (build_stored_proc_lineage transf target_table target_col step). confidence_score e = 1)
   \<and> (detect_stored_procedure_call (unicode sq) sql \<noteq> None \<longrightarrow>
        (\<forall>e \<in> set (parse_sql_lineage sq folder sql target_table target_col step). confidence_score e = 1))
   \<and> (detect_stored_procedure_call (unicode sq) sql = None \<longrightarrow>
        (\<forall>e \<in> set (parse_sql_lineage sq folder sql target_table target_col step).
            confidence_score e = 95 / 100))
   \<and> (\<forall>e \<in> set (build_column_lineage_edges sq folder mapping).
         confidence_score e = 1
         \<or> (confidence_score e = 95 / 100 \<and> cle_transformation_type e = SOURCE_QUALIFIER))
   \<and> (\<forall>fgl \<in> set (snd (snd (build_job_io cfg lineage_edges))).
         \<exists>k. {e \<in> set lineage_edges. target_key_of e = k} \<noteq> {}
           \<and> confidenceScore fgl = Min (confidence_score ` {e \<in> set lineage_edges. target_key_of e = k})
           \<and> downstreams fgl =
               [make_schema_field_urn cfg (build_dataset_urn cfg (fst (rsplit_last_dot k)) False)
                  (snd (rsplit_last_dot k))])"
proof -
  have p7: "\<exists>k. {e \<in> set lineage_edges. target_key_of e = k} \<noteq> {}
           \<and> confidenceScore fgl = Min (confidence_score ` {e \<in> set lineage_edges. target_key_of e = k})
           \<and> downstreams fgl =
               [make_schema_field_urn cfg (build_dataset_urn cfg (fst (rsplit_last_dot k)) False)
                  (snd (rsplit_last_dot k))]"
    if f: "fgl \<in> set (snd (snd (build_job_io cfg lineage_edges)))" for fgl
  proof -
    from build_job_io_fgl[OF f] obtain k es where
      es: "es = filter (\<lambda>e. target_key_of e = k) lineage_edges" and ne: "es \<noteq> []"
      and c: "confidenceScore fgl = py_min (map confidence_score es)"
      and d: "downstreams fgl =
               [make_schema_field_urn cfg (build_dataset_urn cfg (fst (rsplit_last_dot k)) False)
                  (snd (rsplit_last_dot k))]"
      by blast
    have s: "set es = {e \<in> set lineage_edges. target_key_of e = k}" using es by auto
    from ne have "py_min (map confidence_score es) = Min (set (map confidence_score es))"
      by (intro py_min_Min) simp
    with c s have m: "confidenceScore fgl = Min (confidence_score ` {e \<in> set lineage_edges. target_key_of e = k})"
      by simp
    from ne have "set es \<noteq> {}" by simp
    with s have n: "{e \<in> set lineage_edges. target_key_of e = k} \<noteq> {}" by simp
    from n m d show ?thesis by (intro exI[of _ k] conjI)
  qed
  have p1: "\<forall>e \<in> set (source_definition_edges folder inst target_def target_col step). confidence_score e = 1"
    by (intro ballI) (rule source_definition_confidence)
  have p2: "\<forall>e \<in> set (standard_edges folder mapping target_def target_col step). confidence_score e = 1"
    by (intro ballI) (rule standard_confidence)
  have p3: "\<forall>e \<in> set (build_stored_proc_lineage transf target_table target_col step). confidence_score e = 1"
    by (intro ballI) (rule stored_proc_confidence[THEN conjunct1])
  have p4: "detect_stored_procedure_call (unicode sq) sql \<noteq> None \<longrightarrow>
        (\<forall>e \<in> set (parse_sql_lineage sq folder sql target_table target_col step). confidence_score e = 1)"
  proof (intro impI ballI)
    fix e assume a: "detect_stored_procedure_call (unicode sq) sql \<noteq> None"
      and b: "e \<in> set (parse_sql_lineage sq folder sql target_table target_col step)"
    from parse_sql_lineage_confidence[OF b] a show "confidence_score e = 1" by (elim disjE conjE) simp_all
  qed
  have p5: "detect_stored_procedure_call (unicode sq) sql = None \<longrightarrow>
        (\<forall>e \<in> set (parse_sql_lineage sq folder sql target_table target_col step).
            confidence_score e = 95 / 100)"
  proof (intro impI ballI)
    fix e assume a: "detect_stored_procedure_call (unicode sq) sql = None"
      and b: "e \<in> set (parse_sql_lineage sq folder sql target_table target_col step)"
    from parse_sql_lineage_confidence[OF b] a show "confidence_score e = 95 / 100"
      by (elim disjE conjE) simp_all
  qed
  have p6: "\<forall>e \<in> set (build_column_lineage_edges sq folder mapping).
         confidence_score e = 1
         \<or> (confidence_score e = 95 / 100 \<and> cle_transformation_type e = SOURCE_QUALIFIER)"
    by (intro ballI) (rule column_lineage_edges_confidence)
  have p7': "\<forall>fgl \<in> set (snd (snd (build_job_io cfg lineage_edges))).
         \<exists>k. {e \<in> set lineage_edges. target_key_of e = k} \<noteq> {}
           \<and> confidenceScore fgl = Min (confidence_score ` {e \<in> set lineage_edges. target_key_of e = k})
           \<and> downstreams fgl =
               [make_schema_field_urn cfg (build_dataset_urn cfg (fst (rsplit_last_dot k)) False)
                  (snd (rsplit_last_dot k))]"
    using p7 by (rule ballI)
  show ?thesis
    by (rule conjI[OF p1 conjI[OF p2 conjI[OF p3 conjI[OF p4 conjI[OF p5 conjI[OF p6 p7']]]]]])
qed

theorem C4_confidence_witness:
  "detect_stored_procedure_call (unicode ex_env) ex_sql = None
   \<and> parse_sql_lineage ex_env ex_sql_folder ex_sql (str ''T'') (str ''ORDER_COUNT'') ex_step \<noteq> []
   \<and> confidence_score (hd (parse_sql_lineage ex_env ex_sql_folder ex_sql (str ''T'') (str ''ORDER_COUNT'') ex_step)) = 95 / 100
   \<and> map confidenceScore
        (snd (snd (build_job_io ex_cfg
           [ex_edge (str ''PKG.LOAD'') (str ''*'') 1, ex_edge (str ''SRC'') (str ''AMOUNT'') (95 / 100), ex_edge (str ''SRC'') (str ''QTY'') 1])))
       = [95 / 100]"
proof -
  let ?es = "parse_sql_lineage ex_env ex_sql_folder ex_sql (str ''T'') (str ''ORDER_COUNT'') ex_step"
  note T = C4_confidence[where inst = undefined and target_def = undefined and mapping = undefined
          and folder = ex_sql_folder and target_col = "str ''ORDER_COUNT''"
          and step = ex_step and transf = None and target_table = "str ''T''" and sql = ex_sql
          and sq = ex_env and cfg = ex_cfg and lineage_edges =
          "[ex_edge (str ''PKG.LOAD'') (str ''*'') 1, ex_edge (str ''SRC'') (str ''AMOUNT'') (95 / 100), ex_edge (str ''SRC'') (str ''QTY'') 1]"]
  have h: "detect_stored_procedure_call (unicode ex_env) ex_sql = None"
    using ex_sql_no_call by (simp add: ex_env_def)
  have ne: "?es \<noteq> []" by (simp add: ex_sql_lineage)
  then have m: "hd ?es \<in> set ?es" by (rule hd_in_set)
  from T have "detect_stored_procedure_call (unicode ex_env) ex_sql = None \<longrightarrow> (\<forall>e \<in> set ?es. confidence_score e = 95 / 100)"
    by (elim conjE)
  with h m have c: "confidence_score (hd ?es) = 95 / 100" by blast
  have j: "map confidenceScore
        (snd (snd (build_job_io ex_cfg
           [ex_edge (str ''PKG.LOAD'') (str ''*'') 1, ex_edge (str ''SRC'') (str ''AMOUNT'') (95 / 100), ex_edge (str ''SRC'') (str ''QTY'') 1])))
       = [95 / 100]"
    using ex_job_io by simp
  from h ne c j show ?thesis by (intro conjI)
qed

text \<open>
  C10: every upstream field reference of every fine-grained lineage, in
  \<open>_build_job_io\<close> and in \<open>emit_dataset_lineage\<close>, is built from an edge whose source
  column is not the wildcard \<open>*\<close>; the source dataset of every edge, wildcard or not, is
  among the input datasets of the job and among the upstream datasets emitted for the
  edge's target dataset.
\<close>

theorem C10_wildcard_never_a_field:
  "(\<forall>fgl \<in> set (snd (snd (build_job_io cfg lineage_edges))). \<forall>u \<in> set (upstreams fgl).
      \<exists>e \<in> set lineage_edges. source_column e \<noteq> (str ''*'')
         \<and> u = make_schema_field_urn cfg (build_dataset_urn cfg (source_dataset e) True) (source_column e))
   \<and> (\<forall>e \<in> set lineage_edges.
         build_dataset_urn cfg (source_dataset e) True \<in> fst (build_job_io cfg lineage_edges))
   \<and> (\<forall>m \<in> set (emit_dataset_lineage cfg lineage_edges).
       \<forall>fgl \<in> set (case fineGrainedLineages (snd m) of None \<Rightarrow> [] | Some fgls \<Rightarrow> fgls).
       \<forall>u \<in> set (upstreams fgl).
         \<exists>e \<in> set lineage_edges. source_column e \<noteq> (str ''*'')
            \<and> u = make_schema_field_urn cfg (build_dataset_urn cfg (source_dataset e) True) (source_column e))
   \<and> (\<forall>e \<in> set lineage_edges.
         \<exists>ul. (build_dataset_urn cfg (target_dataset e) False, ul) \<in> set (emit_dataset_lineage cfg lineage_edges)
              \<and> build_dataset_urn cfg (source_dataset e) True \<in> ul_upstreams ul)"
proof (intro conjI ballI)
  fix fgl u
  assume f: "fgl \<in> set (snd (snd (build_job_io cfg lineage_edges)))" and u: "u \<in> set (upstreams fgl)"
  from build_job_io_fgl[OF f] obtain k es where
    es: "es = filter (\<lambda>e. target_key_of e = k) lineage_edges"
    and up: "upstreams fgl = upstream_field_urns_of cfg es" by blast
  from u up obtain e where "e \<in> set es" "source_column e \<noteq> (str ''*'')"
    "u = make_schema_field_urn cfg (source_urn cfg e) (source_column e)"
    by (auto simp: set_upstream_field_urns_of)
  with es show "\<exists>e \<in> set lineage_edges. source_column e \<noteq> (str ''*'')
         \<and> u = make_schema_field_urn cfg (build_dataset_urn cfg (source_dataset e) True) (source_column e)"
    by (auto simp: source_urn_def)
next
  fix e assume "e \<in> set lineage_edges"
  from build_job_io_inputs[OF this, of cfg]
  show "build_dataset_urn cfg (source_dataset e) True \<in> fst (build_job_io cfg lineage_edges)"
    by (simp add: source_urn_def)
next
  fix m fgl u
  assume m: "m \<in> set (emit_dataset_lineage cfg lineage_edges)"
    and f: "fgl \<in> set (case fineGrainedLineages (snd m) of None \<Rightarrow> [] | Some fgls \<Rightarrow> fgls)"
    and u: "u \<in> set (upstreams fgl)"
  from f obtain fgls where l: "fineGrainedLineages (snd m) = Some fgls" and f': "fgl \<in> set fgls"
    by (cases "fineGrainedLineages (snd m)") auto
  from m have m': "(fst m, snd m) \<in> set (emit_dataset_lineage cfg lineage_edges)" by simp
  from emit_dataset_lineage_fgl[OF m' l f'] obtain es where
    es: "set es \<subseteq> set lineage_edges" and up: "upstreams fgl = upstream_field_urns_of cfg es"
    by blast
  from u up obtain e where "e \<in> set es" "source_column e \<noteq> (str ''*'')"
    "u = make_schema_field_urn cfg (source_urn cfg e) (source_column e)"
    by (auto simp: set_upstream_field_urns_of)
  with es show "\<exists>e \<in> set lineage_edges. source_column e \<noteq> (str ''*'')
         \<and> u = make_schema_field_urn cfg (build_dataset_urn cfg (source_dataset e) True) (source_column e)"
    by (auto simp: source_urn_def)
next
  fix e assume "e \<in> set lineage_edges"
  from emit_dataset_lineage_upstreams[OF this, of cfg]
  show "\<exists>ul. (build_dataset_urn cfg (target_dataset e) False, ul) \<in> set (emit_dataset_lineage cfg lineage_edges)
              \<and> build_dataset_urn cfg (source_dataset e) True \<in> ul_upstreams ul"
    by (simp add: source_urn_def)
qed

theorem C10_wildcard_never_a_field_witness:
  "ex_edge (str ''PKG.LOAD'') (str ''*'') 1
     \<in> set [ex_edge (str ''PKG.LOAD'') (str ''*'') 1, ex_edge (str ''SRC'') (str ''AMOUNT'') (95 / 100), ex_edge (str ''SRC'') (str ''QTY'') 1]
   \<and> (str ''urn:li:dataset:(urn:li:dataPlatform:oracle,PKG.LOAD,PROD)'')
     \<in> fst (build_job_io ex_cfg
          [ex_edge (str ''PKG.LOAD'') (str ''*'') 1, ex_edge (str ''SRC'') (str ''AMOUNT'') (95 / 100), ex_edge (str ''SRC'') (str ''QTY'') 1])
   \<and> map upstreams
       (snd (snd (build_job_io ex_cfg
          [ex_edge (str ''PKG.LOAD'') (str ''*'') 1, ex_edge (str ''SRC'') (str ''AMOUNT'') (95 / 100), ex_edge (str ''SRC'') (str ''QTY'') 1])))
     = [[(str ''urn:li:schemaField:(urn:li:dataset:(urn:li:dataPlatform:oracle,SRC,PROD),AMOUNT)''),
         (str ''urn:li:schemaField:(urn:li:dataset:(urn:li:dataPlatform:oracle,SRC,PROD),QTY)'')]]"
proof -
  let ?edges = "[ex_edge (str ''PKG.LOAD'') (str ''*'') 1, ex_edge (str ''SRC'') (str ''AMOUNT'') (95 / 100), ex_edge (str ''SRC'') (str ''QTY'') 1]"
  note T = C10_wildcard_never_a_field[of ex_cfg ?edges]
  have m: "ex_edge (str ''PKG.LOAD'') (str ''*'') 1 \<in> set ?edges" by simp
  from T have "\<forall>e \<in> set ?edges. build_dataset_urn ex_cfg (source_dataset e) True \<in> fst (build_job_io ex_cfg ?edges)"
    by (elim conjE)
  then have "build_dataset_urn ex_cfg (source_dataset (ex_edge (str ''PKG.LOAD'') (str ''*'') 1)) True
                 \<in> fst (build_job_io ex_cfg ?edges)"
    using m by (rule bspec)
  moreover have "build_dataset_urn ex_cfg (source_dataset (ex_edge (str ''PKG.LOAD'') (str ''*'') 1)) True
                 = (str ''urn:li:dataset:(urn:li:dataPlatform:oracle,PKG.LOAD,PROD)'')"
    by (simp add: build_dataset_urn_def ex_cfg_def ex_edge_def str_def)
  ultimately have i: "(str ''urn:li:dataset:(urn:li:dataPlatform:oracle,PKG.LOAD,PROD)'')
     \<in> fst (build_job_io ex_cfg ?edges)" by simp
  have u: "map upstreams (snd (snd (build_job_io ex_cfg ?edges)))
     = [[(str ''urn:li:schemaField:(urn:li:dataset:(urn:li:dataPlatform:oracle,SRC,PROD),AMOUNT)''),
         (str ''urn:li:schemaField:(urn:li:dataset:(urn:li:dataPlatform:oracle,SRC,PROD),QTY)'')]]"
    using ex_job_io by simp
  from m i u show ?thesis by (intro conjI)
qed


section \<open>Resolution of unqualified columns in \_parse\_with\_sqlglot\<close>





















end
